theory Spec2Isabelle
  imports Complex_Main "HOL-Library.Multiset" "HOL-Library.Char_ord" "HOL-Library.List_Lexorder"
    "HOL-Library.AList"
begin

section \<open>JavaScript numbers\<close>

text \<open>
  A number is a finite double, \<open>NaN\<close> or one of the infinities. A finite double is
  written \<open>Fin q\<close> with \<open>q\<close> its exact value. Arithmetic takes the exact result to the
  nearest double: \<open>roundDouble\<close> is IEEE 754 binary64 rounding, to nearest with ties to
  the even mantissa, with 53 bits of mantissa, subnormals below \<open>2^-1022\<close> and overflow
  to infinity from \<open>2^1024\<close>. The sign of zero is not modelled: no operation of this
  program tells the two zeros apart.
\<close>

datatype jsnum = Fin rat | NaN | PosInf | NegInf

definition js_neg :: "jsnum \<Rightarrow> jsnum" where
  "js_neg x = (case x of Fin q \<Rightarrow> Fin (- q) | NaN \<Rightarrow> NaN | PosInf \<Rightarrow> NegInf | NegInf \<Rightarrow> PosInf)"

fun log2floor :: "nat \<Rightarrow> nat" where
  "log2floor n = (if n < 2 then 0 else Suc (log2floor (n div 2)))"

declare log2floor.simps [simp del]

definition pow2 :: "int \<Rightarrow> rat" where
  "pow2 e = (if 0 \<le> e then 2 ^ nat e else 1 / 2 ^ nat (- e))"

text \<open>The binary exponent of a positive value: \<open>2^e \<le> x < 2^(e+1)\<close>.\<close>

definition binExp :: "rat \<Rightarrow> int" where
  "binExp x = (if 1 \<le> x then int (log2floor (nat \<lfloor>x\<rfloor>))
               else - int (Suc (log2floor (nat (\<lceil>1 / x\<rceil> - 1)))))"

definition roundHalfEven :: "rat \<Rightarrow> int" where
  "roundHalfEven x =
     (let f = \<lfloor>x\<rfloor>; d = x - of_int f
      in if d < 1 / 2 then f else if 1 / 2 < d then f + 1 else if even f then f else f + 1)"

text \<open>
  Rounding of a positive value: \<open>u\<close> is the spacing of the doubles around \<open>x\<close>, and the
  result the multiple of \<open>u\<close> nearest to \<open>x\<close>.
\<close>

definition roundPos :: "rat \<Rightarrow> jsnum" where
  "roundPos x =
     (let u = pow2 (max (binExp x) (- 1022) - 52);
          r = of_int (roundHalfEven (x / u)) * u
      in if 2 ^ 1024 \<le> r then PosInf else Fin r)"

definition roundDouble :: "rat \<Rightarrow> jsnum" where
  "roundDouble x = (if x = 0 then Fin 0 else if x < 0 then js_neg (roundPos (- x)) else roundPos x)"

text \<open>
  \<open>+\<close> and \<open>*\<close> on numbers. The sum of a double and zero is that double, exactly, as in
  IEEE arithmetic.
\<close>

fun js_add :: "jsnum \<Rightarrow> jsnum \<Rightarrow> jsnum" where
  "js_add (Fin a) (Fin b) = (if a = 0 then Fin b else if b = 0 then Fin a else roundDouble (a + b))"
| "js_add NaN _ = NaN"
| "js_add _ NaN = NaN"
| "js_add PosInf NegInf = NaN"
| "js_add NegInf PosInf = NaN"
| "js_add PosInf _ = PosInf"
| "js_add _ PosInf = PosInf"
| "js_add NegInf _ = NegInf"
| "js_add _ NegInf = NegInf"

fun js_mul :: "jsnum \<Rightarrow> jsnum \<Rightarrow> jsnum" where
  "js_mul (Fin a) (Fin b) = roundDouble (a * b)"
| "js_mul NaN _ = NaN"
| "js_mul _ NaN = NaN"
| "js_mul (Fin a) y = (if a = 0 then NaN else if 0 < a then y else js_neg y)"
| "js_mul x (Fin b) = (if b = 0 then NaN else if 0 < b then x else js_neg x)"
| "js_mul x y = (if x = y then PosInf else NegInf)"

datatype error = RangeError | TypeError | NetworkError

section \<open>Order store (store/orderStore)\<close>

text \<open>
  A price is a finite double, held by its exact value; a quantity and an identifier are
  integers (the data model of the cart has integer quantities; the interface only ever
  passes \<open>quantity + 1\<close> and \<open>quantity - 1\<close>). The totals are computed in double
  arithmetic, as \<open>reduce\<close> does: every product and every partial sum is rounded.
\<close>

datatype SpiceLevel = mild | regular | spicy | extra_spicy

text \<open>
  \<open>MenuItem\<close> keeps the fields the cart code reads or writes; the purely descriptive
  ones (category, description, image, timestamps) are never inspected by it.
  \<open>CartItem extends MenuItem\<close>, as in \<open>types/index.ts\<close>. An optional field that is
  \<open>undefined\<close> or \<open>null\<close> is \<open>None\<close>.
\<close>

record MenuItem =
  item_id :: int
  item_name :: string
  price :: rat
  is_spicy :: bool
  spice_level :: "SpiceLevel option"

record CartItem = MenuItem +
  quantity :: int
  special_instructions :: "string option"
  spice_preference :: "SpiceLevel option"

record OrderStore =
  items :: "CartItem list"
  tableId :: "int option"

definition initialOrderStore :: OrderStore where
  "initialOrderStore = \<lparr>items = [], tableId = None\<rparr>"

text \<open>
  \<open>addItem\<close> is typed on \<open>MenuItem\<close> but spreads whatever object it is handed; the page
  hands it a \<open>CartItem\<close>, so the parameter is the wider record. The spread overrides
  \<open>quantity\<close> and \<open>special_instructions\<close> and copies everything else.
\<close>

definition addItem :: "CartItem \<Rightarrow> OrderStore \<Rightarrow> OrderStore" where
  "addItem item state =
     (case find (\<lambda>i. item_id i = item_id item) (items state) of
        Some existingItem \<Rightarrow>
          state\<lparr>items := map (\<lambda>i. if item_id i = item_id item
                                   then i\<lparr>quantity := quantity i + 1\<rparr> else i) (items state)\<rparr>
      | None \<Rightarrow>
          state\<lparr>items := items state @ [item\<lparr>quantity := 1, special_instructions := Some ''''\<rparr>]\<rparr>)"

definition removeItem :: "int \<Rightarrow> OrderStore \<Rightarrow> OrderStore" where
  "removeItem itemId state = state\<lparr>items := filter (\<lambda>item. item_id item \<noteq> itemId) (items state)\<rparr>"

definition updateQuantity :: "int \<Rightarrow> int \<Rightarrow> OrderStore \<Rightarrow> OrderStore" where
  "updateQuantity itemId qty state =
     (if qty \<le> 0
      then state\<lparr>items := filter (\<lambda>item. item_id item \<noteq> itemId) (items state)\<rparr>
      else state\<lparr>items := map (\<lambda>item. if item_id item = itemId
                                      then item\<lparr>quantity := qty\<rparr> else item) (items state)\<rparr>)"

definition updateInstructions :: "int \<Rightarrow> string \<Rightarrow> OrderStore \<Rightarrow> OrderStore" where
  "updateInstructions itemId instructions state =
     state\<lparr>items := map (\<lambda>item. if item_id item = itemId
                                then item\<lparr>special_instructions := Some instructions\<rparr>
                                else item) (items state)\<rparr>"

definition clearCart :: "OrderStore \<Rightarrow> OrderStore" where
  "clearCart state = state\<lparr>items := [], tableId := None\<rparr>"

definition setTableId :: "int \<Rightarrow> OrderStore \<Rightarrow> OrderStore" where
  "setTableId tid state = state\<lparr>tableId := Some tid\<rparr>"

definition getSubtotal :: "OrderStore \<Rightarrow> jsnum" where
  "getSubtotal state =
     foldl (\<lambda>sum item. js_add sum (js_mul (Fin (price item)) (Fin (of_int (quantity item)))))
       (Fin 0) (items state)"

text \<open>The literal \<open>0.05\<close> is the double nearest to 5/100.\<close>

definition getTax :: "OrderStore \<Rightarrow> jsnum" where
  "getTax state = js_mul (getSubtotal state) (roundDouble (5 / 100))"

definition getTotal :: "OrderStore \<Rightarrow> jsnum" where
  "getTotal state = js_add (getSubtotal state) (getTax state)"

definition getItemCount :: "OrderStore \<Rightarrow> jsnum" where
  "getItemCount state =
     foldl (\<lambda>sum item. js_add sum (Fin (of_int (quantity item)))) (Fin 0) (items state)"

section \<open>Order-taking page handlers (app/captain/order/[tableId]/page)\<close>

text \<open>
  The handlers close over \<open>items\<close>, the store's lines at the time of the render, and call
  the store's actions; each action is applied to the store synchronously.
\<close>

definition handleAddItem :: "MenuItem \<Rightarrow> OrderStore \<Rightarrow> OrderStore" where
  "handleAddItem menuItem state =
     (case find (\<lambda>item. item_id item = item_id menuItem) (items state) of
        Some existingItem \<Rightarrow> updateQuantity (item_id menuItem) (quantity existingItem + 1) state
      | None \<Rightarrow>
          addItem \<lparr>item_id = item_id menuItem, item_name = item_name menuItem,
                   price = price menuItem, is_spicy = is_spicy menuItem,
                   spice_level = spice_level menuItem, quantity = 1,
                   special_instructions = Some '''',
                   spice_preference = spice_level menuItem\<rparr> state)"

definition handleUpdateSpicePreference :: "int \<Rightarrow> SpiceLevel \<Rightarrow> OrderStore \<Rightarrow> OrderStore" where
  "handleUpdateSpicePreference itemId spiceLevel state =
     (let updatedItems = map (\<lambda>item. if item_id item = itemId
                                       then item\<lparr>spice_preference := Some spiceLevel\<rparr>
                                       else item) (items state)
      in foldl (\<lambda>s item. addItem item s) (clearCart state) updatedItems)"

text \<open>The actions a session can apply to the cart, and a run of them from a store.\<close>

datatype CartAction =
    AddItem CartItem
  | RemoveItem int
  | UpdateQuantity int int
  | UpdateInstructions int string
  | ClearCart
  | SetTableId int
  | HandleAddItem MenuItem
  | HandleUpdateSpicePreference int SpiceLevel

fun applyAction :: "OrderStore \<Rightarrow> CartAction \<Rightarrow> OrderStore" where
  "applyAction s (AddItem item) = addItem item s"
| "applyAction s (RemoveItem i) = removeItem i s"
| "applyAction s (UpdateQuantity i q) = updateQuantity i q s"
| "applyAction s (UpdateInstructions i t) = updateInstructions i t s"
| "applyAction s ClearCart = clearCart s"
| "applyAction s (SetTableId t) = setTableId t s"
| "applyAction s (HandleAddItem m) = handleAddItem m s"
| "applyAction s (HandleUpdateSpicePreference i l) = handleUpdateSpicePreference i l s"

definition runActions :: "CartAction list \<Rightarrow> OrderStore" where
  "runActions acts = foldl applyAction initialOrderStore acts"

text \<open>Menu items used in the worked examples.\<close>

definition paneerTikka :: MenuItem where
  "paneerTikka = \<lparr>item_id = 1, item_name = ''Paneer Tikka'', price = 100,
                   is_spicy = True, spice_level = Some regular\<rparr>"

definition dalMakhani :: MenuItem where
  "dalMakhani = \<lparr>item_id = 2, item_name = ''Dal Makhani'', price = 250,
                  is_spicy = False, spice_level = None\<rparr>"

text \<open>A menu item priced 99.99: the price is the double nearest to 9999/100.\<close>

definition masalaChai :: MenuItem where
  "masalaChai = \<lparr>item_id = 3, item_name = ''Masala Chai'',
                  price = 7036170730324623 / 70368744177664,
                  is_spicy = False, spice_level = None\<rparr>"

text \<open>A menu item priced 12.125, a double as it stands.\<close>

definition jeeraRice :: MenuItem where
  "jeeraRice = \<lparr>item_id = 4, item_name = ''Jeera Rice'', price = 97 / 8,
                 is_spicy = False, spice_level = None\<rparr>"

text \<open>The cart line \<open>handleAddItem\<close> builds for a menu item that has no line yet.\<close>

definition cartItemOf :: "MenuItem \<Rightarrow> CartItem" where
  "cartItemOf menuItem =
     \<lparr>item_id = item_id menuItem, item_name = item_name menuItem,
      price = price menuItem, is_spicy = is_spicy menuItem,
      spice_level = spice_level menuItem, quantity = 1,
      special_instructions = Some '''',
      spice_preference = spice_level menuItem\<rparr>"

text \<open>The data-model invariant of the cart: one line per item, every quantity at least 1.\<close>

definition cart_ok :: "OrderStore \<Rightarrow> bool" where
  "cart_ok state \<longleftrightarrow>
     distinct (map item_id (items state)) \<and> (\<forall>l\<in>set (items state). 1 \<le> quantity l)"

section \<open>parseFloat and toFixed\<close>

text \<open>Strings are ASCII.\<close>

definition isWhiteSpace :: "char \<Rightarrow> bool" where
  "isWhiteSpace c \<longleftrightarrow> c \<in> set [CHR 0x09, CHR 0x0A, CHR 0x0B, CHR 0x0C, CHR 0x0D, CHR 0x20]"

definition isDigit :: "char \<Rightarrow> bool" where
  "isDigit c \<longleftrightarrow> c \<in> set ''0123456789''"

definition digitVal :: "char \<Rightarrow> nat" where
  "digitVal c = of_char c - 48"

definition digitsVal :: "string \<Rightarrow> nat" where
  "digitsVal ds = foldl (\<lambda>n c. 10 * n + digitVal c) 0 ds"

definition scale10 :: "rat \<Rightarrow> int \<Rightarrow> rat" where
  "scale10 x e = (if 0 \<le> e then x * 10 ^ nat e else x / 10 ^ nat (- e))"

text \<open>
  The value of the exponent part at the head of a string, 0 when there is none: an
  \<open>e\<close> or \<open>E\<close>, an optional sign, and at least one digit.
\<close>

definition exponentPart :: "string \<Rightarrow> int" where
  "exponentPart s =
     (case s of
        [] \<Rightarrow> 0
      | c # r \<Rightarrow>
          if c = CHR ''e'' \<or> c = CHR ''E'' then
            (case r of
               [] \<Rightarrow> 0
             | d # r' \<Rightarrow>
                 if d = CHR ''+'' then int (digitsVal (takeWhile isDigit r'))
                 else if d = CHR ''-'' then - int (digitsVal (takeWhile isDigit r'))
                 else int (digitsVal (takeWhile isDigit r)))
          else 0)"

text \<open>
  The longest prefix that is a \<open>StrUnsignedDecimalLiteral\<close>: \<open>Infinity\<close>, or digits
  with an optional fraction and exponent, or a fraction that starts with the point.
  No such prefix gives \<open>NaN\<close>. The result is the mathematical value of the literal,
  not yet rounded.
\<close>

definition strUnsignedDecimalLiteral :: "string \<Rightarrow> jsnum" where
  "strUnsignedDecimalLiteral s =
     (if take 8 s = ''Infinity'' then PosInf
      else
        let ip = takeWhile isDigit s;
            r1 = dropWhile isDigit s;
            fp = (case r1 of c # r \<Rightarrow> if c = CHR ''.'' then takeWhile isDigit r else []
                           | [] \<Rightarrow> []);
            r2 = (case r1 of c # r \<Rightarrow> if c = CHR ''.'' then dropWhile isDigit r else r1
                           | [] \<Rightarrow> [])
        in if ip = [] \<and> fp = [] then NaN
           else Fin (scale10 (of_nat (digitsVal ip) + of_nat (digitsVal fp) / 10 ^ length fp)
                        (exponentPart r2)))"

definition strDecimalLiteral :: "string \<Rightarrow> jsnum" where
  "strDecimalLiteral inputString =
     (case dropWhile isWhiteSpace inputString of
        [] \<Rightarrow> NaN
      | c # r \<Rightarrow>
          if c = CHR ''+'' then strUnsignedDecimalLiteral r
          else if c = CHR ''-'' then js_neg (strUnsignedDecimalLiteral r)
          else strUnsignedDecimalLiteral (c # r))"

text \<open>\<open>parseFloat\<close> on a string: the double nearest to the value of the literal.\<close>

definition toDouble :: "jsnum \<Rightarrow> jsnum" where
  "toDouble x = (case x of Fin v \<Rightarrow> roundDouble v | _ \<Rightarrow> x)"

definition parseFloatStr :: "string \<Rightarrow> jsnum" where
  "parseFloatStr inputString = toDouble (strDecimalLiteral inputString)"

definition digitChar :: "nat \<Rightarrow> char" where
  "digitChar d = ''0123456789'' ! d"

fun digitsOf :: "nat \<Rightarrow> string" where
  "digitsOf n = (if n < 10 then [digitChar n] else digitsOf (n div 10) @ [digitChar (n mod 10)])"

declare digitsOf.simps [simp del]

text \<open>
  \<open>Number.prototype.toFixed\<close>: a \<open>RangeError\<close> for a digit count outside 0..100, the
  name of a non-finite value, and otherwise the sign and the integer \<open>n\<close> nearest to
  \<open>x * 10^f\<close> for the exact value \<open>x\<close> of the double (the larger one on a tie),
  padded with zeros and split by the point.
  From \<open>10^21\<close> on the source prints in exponent notation; the model keeps the
  positional form, which reads back to the same value.
\<close>

definition fixedDigits :: "nat \<Rightarrow> rat \<Rightarrow> string" where
  "fixedDigits f x =
     (let n = nat \<lfloor>x * 10 ^ f + 1 / 2\<rfloor>;
          m = digitsOf n;
          m' = (if length m \<le> f then replicate (f + 1 - length m) (CHR ''0'') @ m else m)
      in if f = 0 then m
         else take (length m' - f) m' @ ''.'' @ drop (length m' - f) m')"

definition toFixed :: "int \<Rightarrow> jsnum \<Rightarrow> error + string" where
  "toFixed fractionDigits x =
     (if fractionDigits < 0 \<or> 100 < fractionDigits then Inl RangeError
      else case x of
             Fin q \<Rightarrow> Inr (if q < 0 then ''-'' @ fixedDigits (nat fractionDigits) (- q)
                            else fixedDigits (nat fractionDigits) q)
           | NaN \<Rightarrow> Inr ''NaN''
           | PosInf \<Rightarrow> Inr ''Infinity''
           | NegInf \<Rightarrow> Inr ''-Infinity'')"

section \<open>Table grid (components/captain/TableGrid): aggregation\<close>

text \<open>
  \<open>total_amount\<close> is declared an optional number, is read with \<open>parseFloat\<close> and is
  written back as the string \<open>toFixed(2)\<close> returns; at run time it is absent, a number
  or a string. \<open>orZero\<close> is \<open>total_amount || '0'\<close>; \<open>parseFloat\<close> of a number reads the
  number's own printed form, which gives the number back.
\<close>

datatype amount = Absent | Num jsnum | Str string

definition orZero :: "amount \<Rightarrow> amount" where
  "orZero a = (case a of
                 Absent \<Rightarrow> Str ''0''
               | Num n \<Rightarrow> if n = Fin 0 \<or> n = NaN then Str ''0'' else Num n
               | Str s \<Rightarrow> if s = [] then Str ''0'' else Str s)"

definition parseFloat :: "amount \<Rightarrow> jsnum" where
  "parseFloat a = (case a of Absent \<Rightarrow> NaN | Num n \<Rightarrow> n | Str s \<Rightarrow> parseFloatStr s)"

text \<open>\<open>a || b\<close> on identifiers (0 is falsy) and on strings (the empty string is falsy).\<close>

definition orNumber :: "int option \<Rightarrow> int option \<Rightarrow> int option" where
  "orNumber a b = (case a of Some n \<Rightarrow> if n \<noteq> 0 then a else b | None \<Rightarrow> b)"

definition orString :: "string option \<Rightarrow> string option \<Rightarrow> string option" where
  "orString a b = (case a of Some s \<Rightarrow> if s \<noteq> [] then a else b | None \<Rightarrow> b)"

datatype TableStatus = empty | running | billed

record Table =
  table_id :: int
  table_number :: string
  table_block :: string
  seating_capacity :: int
  status :: TableStatus
  current_order_id :: "int option"
  last_occupied_at :: "string option"
  created_at :: string
  updated_at :: string
  total_amount :: amount
  order_number :: "string option"

text \<open>
  \<open>aggregatedTablesMap\<close> is a JavaScript \<open>Map\<close>: keys in insertion order, \<open>set\<close> on a
  present key replaces the value in place. \<open>aggregateRow\<close> is the body of the
  \<open>forEach\<close>; \<open>mergeTables\<close> is the object it stores for a table seen before.
\<close>

type_synonym TableMap = "(int \<times> Table) list"

definition mergeTables :: "Table \<Rightarrow> Table \<Rightarrow> error + Table" where
  "mergeTables existingTable table =
     (let existingAmount = parseFloat (orZero (total_amount existingTable));
          currentAmount = parseFloat (orZero (total_amount table));
          summedAmount = js_add existingAmount currentAmount
      in case toFixed 2 summedAmount of
           Inl e \<Rightarrow> Inl e
         | Inr fixed \<Rightarrow>
             Inr (existingTable\<lparr>
                    total_amount := Str fixed,
                    status := (if status table = running then running
                               else status existingTable),
                    current_order_id := orNumber (current_order_id existingTable)
                                                 (current_order_id table),
                    order_number := orString (order_number existingTable)
                                             (order_number table)\<rparr>))"

definition aggregateRow :: "Table \<Rightarrow> TableMap \<Rightarrow> error + TableMap" where
  "aggregateRow table aggregatedTablesMap =
     (case map_of aggregatedTablesMap (table_id table) of
        Some existingTable \<Rightarrow>
          (case mergeTables existingTable table of
             Inl e \<Rightarrow> Inl e
           | Inr merged \<Rightarrow> Inr (AList.update (table_id table) merged aggregatedTablesMap))
      | None \<Rightarrow> Inr (AList.update (table_id table) table aggregatedTablesMap))"

fun forEachRow :: "Table list \<Rightarrow> TableMap \<Rightarrow> error + TableMap" where
  "forEachRow [] m = Inr m"
| "forEachRow (table # rest) m =
     (case aggregateRow table m of Inl e \<Rightarrow> Inl e | Inr m' \<Rightarrow> forEachRow rest m')"

definition aggregatedMap :: "Table list \<Rightarrow> error + TableMap" where
  "aggregatedMap tableArray = forEachRow tableArray []"

definition aggregate :: "Table list \<Rightarrow> error + Table list" where
  "aggregate tableArray =
     (case aggregatedMap tableArray of Inl e \<Rightarrow> Inl e | Inr m \<Rightarrow> Inr (map snd m))"

text \<open>
  The entry of one table in the aggregated view, and the amount a consumer reads from
  it (\<open>parseFloat(table.total_amount || '0')\<close>, as the payment modal does).
\<close>

definition aggregateOf :: "Table list \<Rightarrow> int \<Rightarrow> Table option" where
  "aggregateOf tableArray tid =
     (case aggregatedMap tableArray of Inl e \<Rightarrow> None | Inr m \<Rightarrow> map_of m tid)"

definition amountOf :: "Table \<Rightarrow> jsnum" where
  "amountOf table = parseFloat (orZero (total_amount table))"

text \<open>A row of the listing, for the worked examples.\<close>

definition row :: "int \<Rightarrow> string \<Rightarrow> string \<Rightarrow> TableStatus \<Rightarrow> int option \<Rightarrow> amount \<Rightarrow> Table" where
  "row i n b s oid amt =
     \<lparr>table_id = i, table_number = n, table_block = b, seating_capacity = 4, status = s,
      current_order_id = oid, last_occupied_at = None, created_at = ''2024-01-01'',
      updated_at = ''2024-01-01'', total_amount = amt, order_number = None\<rparr>"

section \<open>Table grid: grouping by block and ordering within a block\<close>

text \<open>
  \<open>localeCompare\<close> is called without options, so without numeric collation. On strings
  of ASCII digits the default collation compares character by character, a proper
  prefix first: the lexicographic order of the strings. The model is that order; outside
  digit strings the collation of a locale may differ from it.
  \<open>Array.prototype.sort\<close> is stable; \<open>js_sort\<close> is the stable insertion sort.
\<close>

definition localeCompare :: "string \<Rightarrow> string \<Rightarrow> int" where
  "localeCompare a b = (if a < b then - 1 else if a = b then 0 else 1)"

fun insertBy :: "('a \<Rightarrow> 'a \<Rightarrow> int) \<Rightarrow> 'a \<Rightarrow> 'a list \<Rightarrow> 'a list" where
  "insertBy cmp x [] = [x]"
| "insertBy cmp x (y # ys) = (if cmp x y \<le> 0 then x # y # ys else y # insertBy cmp x ys)"

definition js_sort :: "('a \<Rightarrow> 'a \<Rightarrow> int) \<Rightarrow> 'a list \<Rightarrow> 'a list" where
  "js_sort cmp xs = foldr (insertBy cmp) xs []"

text \<open>
  \<open>groupedTables\<close> is the \<open>reduce\<close> into an object keyed by block (block labels are not
  names of \<open>Object.prototype\<close> members); \<open>sortedBlocks\<close> is \<open>Object.keys(...).sort()\<close>;
  \<open>renderBlocks\<close> is the list of blocks with the tables in the order the cards are drawn.
\<close>

definition groupStep :: "(string \<times> Table list) list \<Rightarrow> Table \<Rightarrow> (string \<times> Table list) list" where
  "groupStep acc table =
     (let block = table_block table
      in case map_of acc block of
           None \<Rightarrow> AList.update block [table] acc
         | Some ts \<Rightarrow> AList.update block (ts @ [table]) acc)"

definition groupedTables :: "Table list \<Rightarrow> (string \<times> Table list) list" where
  "groupedTables tableArray = foldl groupStep [] tableArray"

definition sortedBlocks :: "Table list \<Rightarrow> string list" where
  "sortedBlocks tableArray = sort (map fst (groupedTables tableArray))"

definition tablesOfBlock :: "Table list \<Rightarrow> string \<Rightarrow> Table list" where
  "tablesOfBlock tableArray block =
     (case map_of (groupedTables tableArray) block of None \<Rightarrow> [] | Some ts \<Rightarrow> ts)"

definition renderBlock :: "Table list \<Rightarrow> string \<Rightarrow> Table list" where
  "renderBlock tableArray block =
     js_sort (\<lambda>a b. localeCompare (table_number a) (table_number b))
       (tablesOfBlock tableArray block)"

definition renderBlocks :: "Table list \<Rightarrow> (string \<times> Table list) list" where
  "renderBlocks tableArray =
     map (\<lambda>block. (block, renderBlock tableArray block)) (sortedBlocks tableArray)"

definition digitString :: "string \<Rightarrow> bool" where
  "digitString s \<longleftrightarrow> (\<forall>c\<in>set s. isDigit c)"

section \<open>Table store (store/tableStore) and the dashboard's fetchTables\<close>

text \<open>
  The listing as the backend delivers it: a bare array, or the array under \<open>tables\<close>,
  \<open>data.tables\<close> or \<open>data\<close>. The store keeps the payload as delivered.
\<close>

datatype TablesResponse =
    BareArray "Table list"
  | UnderTables "Table list"
  | UnderDataTables "Table list"
  | UnderData "Table list"
  | OtherShape

record TableStore =
  tables :: TablesResponse
  selectedTable :: "Table option"
  isLoading :: bool

definition setTables :: "TablesResponse \<Rightarrow> TableStore \<Rightarrow> TableStore" where
  "setTables data state = state\<lparr>tables := data, isLoading := False\<rparr>"

definition setSelectedTable :: "Table option \<Rightarrow> TableStore \<Rightarrow> TableStore" where
  "setSelectedTable table state = state\<lparr>selectedTable := table\<rparr>"

definition setLoading :: "bool \<Rightarrow> TableStore \<Rightarrow> TableStore" where
  "setLoading loading state = state\<lparr>isLoading := loading\<rparr>"

datatype notice = ToastError string | ToastSuccess string

text \<open>
  An awaited backend call is a value: \<open>Inl\<close> when the promise rejects, \<open>Inr\<close> with the
  response when it resolves. \<open>fetchTables\<close> is the dashboard's; its state is the table
  store and the notifications shown.
\<close>

definition fetchTables ::
  "error + TablesResponse \<Rightarrow> TableStore \<times> notice list \<Rightarrow> TableStore \<times> notice list" where
  "fetchTables getAllTables st =
     (let store1 = setLoading True (fst st)
      in case getAllTables of
           Inr data \<Rightarrow> (setLoading False (setTables data store1), snd st)
         | Inl e \<Rightarrow> (setLoading False store1, snd st @ [ToastError ''Failed to load tables'']))"

section \<open>Order-taking page: KOT generation\<close>

record OrderItemPayload =
  menu_item_id :: int
  payload_quantity :: int
  unit_price :: rat
  total_price :: jsnum
  payload_spice_preference :: "SpiceLevel option"
  payload_special_instructions :: "string option"

record OrderData =
  order_table_id :: int
  order_items :: "OrderItemPayload list"
  subtotal_amount :: jsnum
  tax_amount :: jsnum
  order_total_amount :: jsnum

record OrderPage =
  orderStore :: OrderStore
  tableStore :: TableStore
  pageLoading :: bool
  isGeneratingKOT :: bool
  existingOrders :: "Table list"
  kotNumber :: string
  toasts :: "notice list"
  route :: "string option"

definition orderDataOf :: "int \<Rightarrow> CartItem list \<Rightarrow> OrderData" where
  "orderDataOf tid cart =
     (let subtotal = foldl (\<lambda>sum item.
                       js_add sum (js_mul (Fin (price item)) (Fin (of_int (quantity item)))))
                     (Fin 0) cart;
          tax = js_mul subtotal (roundDouble (5 / 100));
          total = js_add subtotal tax
      in \<lparr>order_table_id = tid,
          order_items = map (\<lambda>item.
             \<lparr>menu_item_id = item_id item, payload_quantity = quantity item,
              unit_price = price item,
              total_price = js_mul (Fin (price item)) (Fin (of_int (quantity item))),
              payload_spice_preference = spice_preference item,
              payload_special_instructions = orString (special_instructions item) None\<rparr>) cart,
          subtotal_amount = subtotal, tax_amount = tax, order_total_amount = total\<rparr>)"

text \<open>
  \<open>fetchTableData\<close> reloads the listing for the page's table; every failure inside it is
  caught there (a notification and a return to the dashboard).
\<close>

definition fetchTableData :: "int \<Rightarrow> error + TablesResponse \<Rightarrow> OrderPage \<Rightarrow> OrderPage" where
  "fetchTableData tid getAllTables pg =
     (let pg1 = pg\<lparr>pageLoading := True\<rparr>;
          failed = pg1\<lparr>toasts := toasts pg1 @ [ToastError ''Failed to load table data''],
                       route := Some ''/captain''\<rparr>;
          pg2 =
            (case getAllTables of
               Inl e \<Rightarrow> failed
             | Inr tablesResponse \<Rightarrow>
                 (let allTables = (case tablesResponse of
                                     BareArray ts \<Rightarrow> ts
                                   | UnderDataTables ts \<Rightarrow> ts
                                   | UnderTables ts \<Rightarrow> ts
                                   | _ \<Rightarrow> []);
                      tableEntries = filter (\<lambda>t. table_id t = tid) allTables
                  in case tableEntries of
                       [] \<Rightarrow> failed
                     | tableInfo # _ \<Rightarrow>
                         pg1\<lparr>tableStore := setSelectedTable (Some tableInfo) (tableStore pg1),
                             existingOrders :=
                               (if status tableInfo = running
                                then filter (\<lambda>t. orNumber (current_order_id t) None \<noteq> None)
                                       tableEntries
                                else [])\<rparr>))
      in pg2\<lparr>pageLoading := False\<rparr>)"

text \<open>
  \<open>handleGenerateKOT\<close>: \<open>createOrder\<close> is the backend (it rejects or resolves with the
  order number), \<open>getAllTables\<close> the outcome of the reload that follows a success.
  Printing the ticket changes no state.
\<close>

definition handleGenerateKOT ::
  "int \<Rightarrow> (OrderData \<Rightarrow> error + string) \<Rightarrow> error + TablesResponse \<Rightarrow> OrderPage \<Rightarrow> OrderPage" where
  "handleGenerateKOT tid createOrder getAllTables pg =
     (if items (orderStore pg) = []
      then pg\<lparr>toasts := toasts pg @ [ToastError ''Please add items to generate KOT'']\<rparr>
      else
        let pg1 = pg\<lparr>isGeneratingKOT := True\<rparr>;
            pg2 =
              (case createOrder (orderDataOf tid (items (orderStore pg1))) of
                 Inl e \<Rightarrow> pg1\<lparr>toasts := toasts pg1 @ [ToastError ''Failed to generate KOT'']\<rparr>
               | Inr number \<Rightarrow>
                   fetchTableData tid getAllTables
                     (pg1\<lparr>kotNumber := number,
                          toasts := toasts pg1 @
                            [ToastSuccess (''KOT #'' @ number @ '' generated successfully!'')],
                          orderStore := clearCart (orderStore pg1)\<rparr>))
        in pg2\<lparr>isGeneratingKOT := False\<rparr>)"

text \<open>An order page with one item in the cart, for the worked examples.\<close>

definition examplePage :: OrderPage where
  "examplePage =
     \<lparr>orderStore = runActions [SetTableId 5, HandleAddItem paneerTikka],
      tableStore = \<lparr>tables = BareArray [row 5 ''5'' ''A'' empty None Absent],
                     selectedTable = None, isLoading = False\<rparr>,
      pageLoading = False, isGeneratingKOT = False, existingOrders = [],
      kotNumber = '''', toasts = [], route = None\<rparr>"

section \<open>Roundings to hundredths and exact steps\<close>

text \<open>Rounding to a multiple of 1/100, halves away from zero: what toFixed(2) prints.\<close>

definition round2 :: "rat \<Rightarrow> rat" where
  "round2 q = (if q < 0 then - (of_int \<lfloor>- q * 100 + 1 / 2\<rfloor> / 100)
               else of_int \<lfloor>q * 100 + 1 / 2\<rfloor> / 100)"

text \<open>
  No rounding in the subtotal of a list of lines, from a running sum: every product and
  every partial sum is a double as it stands.
\<close>

fun exactSteps :: "rat \<Rightarrow> CartItem list \<Rightarrow> bool" where
  "exactSteps acc [] = True"
| "exactSteps acc (item # rest) =
     (js_mul (Fin (price item)) (Fin (of_int (quantity item)))
        = Fin (price item * of_int (quantity item))
      \<and> js_add (Fin acc) (Fin (price item * of_int (quantity item)))
        = Fin (acc + price item * of_int (quantity item))
      \<and> exactSteps (acc + price item * of_int (quantity item)) rest)"

text \<open>
  The whole number of hundredths nearest to a finite number, and the numbers that are the
  double nearest to a whole number of hundredths: amounts written with at most two
  decimals.
\<close>

definition centsOf :: "jsnum \<Rightarrow> int" where
  "centsOf x = (case x of Fin q \<Rightarrow> \<lfloor>q * 100 + 1 / 2\<rfloor> | _ \<Rightarrow> 0)"

definition twoDecimal :: "jsnum \<Rightarrow> bool" where
  "twoDecimal x \<longleftrightarrow> roundDouble (of_int (centsOf x) / 100) = x"

section \<open>Theorems: the cart invariant\<close>

lemma find_None_ids: "find (\<lambda>i. item_id i = k) xs = None \<longleftrightarrow> k \<notin> item_id ` set xs"
  by (auto simp: find_None_iff)

lemma find_Some_mem: "find P xs = Some e \<Longrightarrow> e \<in> set xs \<and> P e"
  by (auto simp: find_Some_iff)

lemma bump_ids_comp:
  "(\<And>i. item_id (f i) = item_id i) \<Longrightarrow>
   item_id \<circ> (\<lambda>i. if item_id i = k then f i else i) = item_id"
  by (rule ext) simp

lemma map_bump_ids:
  "(\<And>i. item_id (f i) = item_id i) \<Longrightarrow>
   map item_id (map (\<lambda>i. if item_id i = k then f i else i) xs) = map item_id xs"
  by (simp add: bump_ids_comp)

lemma addItem_existing:
  assumes "k = item_id item" "k \<in> item_id ` set (items state)"
  shows "items (addItem item state)
           = map (\<lambda>i. if item_id i = k then i\<lparr>quantity := quantity i + 1\<rparr> else i) (items state)"
proof -
  from assms have "find (\<lambda>i. item_id i = item_id item) (items state) \<noteq> None"
    by (simp add: find_None_ids)
  then show ?thesis using assms(1) by (auto simp: addItem_def)
qed

lemma addItem_fresh:
  assumes "item_id item \<notin> item_id ` set (items state)"
  shows "items (addItem item state)
           = items state @ [item\<lparr>quantity := 1, special_instructions := Some ''''\<rparr>]"
  using assms by (simp add: addItem_def find_None_ids[THEN iffD2])

lemma addItem_tableId: "tableId (addItem item state) = tableId state"
  by (simp add: addItem_def split: option.splits)

lemma cart_ok_addItem: "cart_ok state \<Longrightarrow> cart_ok (addItem item state)"
proof (cases "item_id item \<in> item_id ` set (items state)")
  case True
  assume ok: "cart_ok state"
  have ids: "map item_id (items (addItem item state)) = map item_id (items state)"
    by (simp add: addItem_existing[OF refl True] map_bump_ids)
  show ?thesis using ok unfolding cart_ok_def ids
    by (auto simp: addItem_existing[OF refl True])
next
  case False
  assume ok: "cart_ok state"
  then show ?thesis using False unfolding cart_ok_def
    by (auto simp: addItem_fresh[OF False])
qed

lemma cart_ok_removeItem: "cart_ok state \<Longrightarrow> cart_ok (removeItem k state)"
  by (auto simp: cart_ok_def removeItem_def distinct_map_filter)

lemma cart_ok_updateQuantity: "cart_ok state \<Longrightarrow> cart_ok (updateQuantity k q state)"
  by (auto simp: cart_ok_def updateQuantity_def distinct_map_filter bump_ids_comp)

lemma cart_ok_updateInstructions: "cart_ok state \<Longrightarrow> cart_ok (updateInstructions k t state)"
  by (auto simp: cart_ok_def updateInstructions_def bump_ids_comp)

lemma cart_ok_clearCart: "cart_ok (clearCart state)"
  by (simp add: cart_ok_def clearCart_def)

lemma cart_ok_setTableId: "cart_ok state \<Longrightarrow> cart_ok (setTableId t state)"
  by (simp add: cart_ok_def setTableId_def)

lemma cart_ok_handleAddItem: "cart_ok state \<Longrightarrow> cart_ok (handleAddItem m state)"
  by (simp add: handleAddItem_def cart_ok_addItem cart_ok_updateQuantity split: option.splits)

lemma cart_ok_foldl_addItem: "cart_ok state \<Longrightarrow> cart_ok (foldl (\<lambda>s item. addItem item s) state xs)"
  by (induction xs arbitrary: state) (simp_all add: cart_ok_addItem)

lemma cart_ok_handleUpdateSpicePreference: "cart_ok (handleUpdateSpicePreference k l state)"
  by (simp add: handleUpdateSpicePreference_def Let_def cart_ok_foldl_addItem cart_ok_clearCart)

lemma cart_ok_applyAction: "cart_ok state \<Longrightarrow> cart_ok (applyAction state a)"
  by (cases a) (simp_all add: cart_ok_addItem cart_ok_removeItem cart_ok_updateQuantity
      cart_ok_updateInstructions cart_ok_clearCart cart_ok_setTableId cart_ok_handleAddItem
      cart_ok_handleUpdateSpicePreference)

lemma cart_ok_foldl_applyAction: "cart_ok state \<Longrightarrow> cart_ok (foldl applyAction state acts)"
  by (induction acts arbitrary: state) (simp_all add: cart_ok_applyAction)

lemma cart_ok_runActions: "cart_ok (runActions acts)"
  unfolding runActions_def
  by (rule cart_ok_foldl_applyAction) (simp add: cart_ok_def initialOrderStore_def)

lemma handleAddItem_is_addItem:
  assumes ok: "cart_ok state"
  shows "handleAddItem m state = addItem (cartItemOf m) state"
proof (cases "find (\<lambda>item. item_id item = item_id m) (items state)")
  case None
  then show ?thesis by (simp add: handleAddItem_def cartItemOf_def)
next
  case (Some e)
  then have e: "e \<in> set (items state)" "item_id e = item_id m"
    using find_Some_mem[OF Some] by simp_all
  have uniq: "i = e" if "i \<in> set (items state)" "item_id i = item_id m" for i
    using ok e that unfolding cart_ok_def
    by (metis distinct_map inj_on_eq_iff)
  have pos: "\<not> quantity e + 1 \<le> 0" using ok e unfolding cart_ok_def by fastforce
  have "map (\<lambda>item. if item_id item = item_id m then item\<lparr>quantity := quantity e + 1\<rparr> else item) (items state)
      = map (\<lambda>i. if item_id i = item_id m then i\<lparr>quantity := quantity i + 1\<rparr> else i) (items state)"
    by (rule map_cong) (auto dest: uniq)
  then show ?thesis using Some pos
    by (simp add: handleAddItem_def addItem_def updateQuantity_def cartItemOf_def)
qed

section \<open>Theorems: adding items, quantities, spice preference\<close>

text \<open>
  C7. The store's addItem, in every store: when the item's identifier already has a line,
  every line with that identifier has its quantity raised by exactly 1 and the number of
  lines is unchanged; otherwise exactly one line is appended, with quantity 1 and empty
  instructions. The page's handleAddItem, in every store a session can reach, does the
  same, and the line it appends carries the item's default spice level as its spice
  preference. Adding the same item twice to the empty cart leaves one line of quantity 2.
\<close>

theorem C7_addItem_increments_or_appends:
  "(item_id item \<in> item_id ` set (items state) \<longrightarrow>
      items (addItem item state)
        = map (\<lambda>i. if item_id i = item_id item then i\<lparr>quantity := quantity i + 1\<rparr> else i) (items state)
      \<and> length (items (addItem item state)) = length (items state))
   \<and> (item_id item \<notin> item_id ` set (items state) \<longrightarrow>
      items (addItem item state)
        = items state @ [item\<lparr>quantity := 1, special_instructions := Some ''''\<rparr>])
   \<and> (item_id m \<in> item_id ` set (items (runActions acts)) \<longrightarrow>
      items (handleAddItem m (runActions acts))
        = map (\<lambda>i. if item_id i = item_id m then i\<lparr>quantity := quantity i + 1\<rparr> else i)
            (items (runActions acts))
      \<and> length (items (handleAddItem m (runActions acts))) = length (items (runActions acts)))
   \<and> (item_id m \<notin> item_id ` set (items (runActions acts)) \<longrightarrow>
      items (handleAddItem m (runActions acts))
        = items (runActions acts) @
            [\<lparr>item_id = item_id m, item_name = item_name m, price = price m,
              is_spicy = is_spicy m, spice_level = spice_level m, quantity = 1,
              special_instructions = Some '''', spice_preference = spice_level m\<rparr>])
   \<and> items (runActions [HandleAddItem m, HandleAddItem m])
        = [\<lparr>item_id = item_id m, item_name = item_name m, price = price m,
            is_spicy = is_spicy m, spice_level = spice_level m, quantity = 2,
            special_instructions = Some '''', spice_preference = spice_level m\<rparr>]"
proof -
  let ?st = "runActions acts"
  have h: "handleAddItem m ?st = addItem (cartItemOf m) ?st"
    by (rule handleAddItem_is_addItem) (rule cart_ok_runActions)
  have id: "item_id (cartItemOf m) = item_id m" by (simp add: cartItemOf_def)
  have a: "item_id item \<in> item_id ` set (items state) \<longrightarrow>
      items (addItem item state)
        = map (\<lambda>i. if item_id i = item_id item then i\<lparr>quantity := quantity i + 1\<rparr> else i) (items state)
      \<and> length (items (addItem item state)) = length (items state)"
    by (simp add: addItem_existing[OF refl])
  have b: "item_id item \<notin> item_id ` set (items state) \<longrightarrow>
      items (addItem item state)
        = items state @ [item\<lparr>quantity := 1, special_instructions := Some ''''\<rparr>]"
    by (simp add: addItem_fresh)
  have c: "item_id m \<in> item_id ` set (items ?st) \<longrightarrow>
      items (handleAddItem m ?st)
        = map (\<lambda>i. if item_id i = item_id m then i\<lparr>quantity := quantity i + 1\<rparr> else i) (items ?st)
      \<and> length (items (handleAddItem m ?st)) = length (items ?st)"
    using addItem_existing[of "item_id m" "cartItemOf m" ?st] by (simp add: h id)
  have d: "item_id m \<notin> item_id ` set (items ?st) \<longrightarrow>
      items (handleAddItem m ?st)
        = items ?st @
            [\<lparr>item_id = item_id m, item_name = item_name m, price = price m,
              is_spicy = is_spicy m, spice_level = spice_level m, quantity = 1,
              special_instructions = Some '''', spice_preference = spice_level m\<rparr>]"
    using addItem_fresh[of "cartItemOf m" ?st] by (simp add: h id) (simp add: cartItemOf_def)
  have e: "items (runActions [HandleAddItem m, HandleAddItem m])
        = [\<lparr>item_id = item_id m, item_name = item_name m, price = price m,
            is_spicy = is_spicy m, spice_level = spice_level m, quantity = 2,
            special_instructions = Some '''', spice_preference = spice_level m\<rparr>]"
    by (simp add: runActions_def initialOrderStore_def handleAddItem_def addItem_def
        updateQuantity_def)
  from a b c d e show ?thesis by blast
qed

text \<open>C7 at a cart that holds one item: the same item again, and a second item.\<close>

theorem C7_addItem_witness:
  "item_id (cartItemOf paneerTikka) \<in> item_id ` set (items (runActions [HandleAddItem paneerTikka]))
   \<and> item_id (cartItemOf dalMakhani) \<notin> item_id ` set (items (runActions [HandleAddItem paneerTikka]))
   \<and> map quantity (items (addItem (cartItemOf paneerTikka) (runActions [HandleAddItem paneerTikka]))) = [2]
   \<and> map quantity (items (handleAddItem paneerTikka (runActions [HandleAddItem paneerTikka]))) = [2]
   \<and> map quantity (items (addItem (cartItemOf dalMakhani) (runActions [HandleAddItem paneerTikka]))) = [1, 1]
   \<and> map spice_preference (items (handleAddItem dalMakhani (runActions [HandleAddItem paneerTikka])))
        = [Some regular, None]"
proof -
  let ?st = "runActions [HandleAddItem paneerTikka]"
  have st: "items ?st = [cartItemOf paneerTikka]"
    by (simp add: runActions_def initialOrderStore_def handleAddItem_def addItem_def cartItemOf_def)
  have p: "item_id (cartItemOf paneerTikka) \<in> item_id ` set (items ?st)"
    by (simp add: st)
  have q: "item_id (cartItemOf dalMakhani) \<notin> item_id ` set (items ?st)"
    unfolding st by (simp add: cartItemOf_def paneerTikka_def dalMakhani_def)
  have p': "item_id paneerTikka \<in> item_id ` set (items ?st)"
    unfolding st by (simp add: cartItemOf_def)
  have q': "item_id dalMakhani \<notin> item_id ` set (items ?st)"
    unfolding st by (simp add: cartItemOf_def paneerTikka_def dalMakhani_def)
  note t1 = C7_addItem_increments_or_appends[of "cartItemOf paneerTikka" ?st paneerTikka "[HandleAddItem paneerTikka]"]
  note t2 = C7_addItem_increments_or_appends[of "cartItemOf dalMakhani" ?st dalMakhani "[HandleAddItem paneerTikka]"]
  show ?thesis using t1 t2 p q p' q'
    by (simp add: st) (simp add: cartItemOf_def paneerTikka_def dalMakhani_def)
qed

text \<open>
  C8. After any sequence of cart actions from the empty cart every line has quantity at
  least 1; updateQuantity with a target of 0 or less removes the lines of that identifier
  instead of storing the target; updateQuantity on an identifier with no line returns
  the store unchanged.
\<close>

theorem C8_quantity_at_least_one:
  "(\<forall>l\<in>set (items (runActions acts)). 1 \<le> quantity l)
   \<and> (qty \<le> 0 \<longrightarrow>
        items (updateQuantity itemId qty state) = filter (\<lambda>item. item_id item \<noteq> itemId) (items state)
        \<and> itemId \<notin> item_id ` set (items (updateQuantity itemId qty state)))
   \<and> (itemId \<notin> item_id ` set (items state) \<longrightarrow> updateQuantity itemId qty state = state)"
proof -
  have a: "\<forall>l\<in>set (items (runActions acts)). 1 \<le> quantity l"
    using cart_ok_runActions[of acts] by (simp add: cart_ok_def)
  have b: "qty \<le> 0 \<longrightarrow>
        items (updateQuantity itemId qty state) = filter (\<lambda>item. item_id item \<noteq> itemId) (items state)
        \<and> itemId \<notin> item_id ` set (items (updateQuantity itemId qty state))"
    by (auto simp: updateQuantity_def)
  have f: "filter (\<lambda>item. item_id item \<noteq> itemId) xs = xs" if "itemId \<notin> item_id ` set xs" for xs :: "CartItem list"
    using that by (induction xs) auto
  have m: "map (\<lambda>item. if item_id item = itemId then item\<lparr>quantity := qty\<rparr> else item) xs = xs"
    if "itemId \<notin> item_id ` set xs" for xs :: "CartItem list"
    using that by (induction xs) auto
  have c: "itemId \<notin> item_id ` set (items state) \<longrightarrow> updateQuantity itemId qty state = state"
    by (simp add: updateQuantity_def f m)
  from a b c show ?thesis by blast
qed

text \<open>C8 at a cart of two items: a removal by target 0 and an absent identifier.\<close>

theorem C8_quantity_witness:
  "items (runActions [HandleAddItem paneerTikka, HandleAddItem paneerTikka, HandleAddItem dalMakhani])
     \<noteq> []
   \<and> map quantity (items (runActions [HandleAddItem paneerTikka, HandleAddItem paneerTikka,
                                      HandleAddItem dalMakhani])) = [2, 1]
   \<and> (0::int) \<le> 0
   \<and> map item_id (items (runActions [HandleAddItem paneerTikka, HandleAddItem dalMakhani])) = [1, 2]
   \<and> map item_id (items (updateQuantity 1 0
          (runActions [HandleAddItem paneerTikka, HandleAddItem dalMakhani]))) = [2]
   \<and> 7 \<notin> item_id ` set (items (runActions [HandleAddItem paneerTikka, HandleAddItem dalMakhani]))
   \<and> updateQuantity 7 5 (runActions [HandleAddItem paneerTikka, HandleAddItem dalMakhani])
        = runActions [HandleAddItem paneerTikka, HandleAddItem dalMakhani]"
proof -
  let ?st = "runActions [HandleAddItem paneerTikka, HandleAddItem dalMakhani]"
  have st: "items ?st = [cartItemOf paneerTikka, cartItemOf dalMakhani]"
    by (simp add: runActions_def initialOrderStore_def handleAddItem_def addItem_def cartItemOf_def
        paneerTikka_def dalMakhani_def)
  have ne: "items (runActions [HandleAddItem paneerTikka, HandleAddItem paneerTikka, HandleAddItem dalMakhani]) \<noteq> []"
    by (simp add: runActions_def initialOrderStore_def handleAddItem_def addItem_def updateQuantity_def
        paneerTikka_def dalMakhani_def)
  have qs: "map quantity (items (runActions [HandleAddItem paneerTikka, HandleAddItem paneerTikka,
      HandleAddItem dalMakhani])) = [2, 1]"
    by (simp add: runActions_def initialOrderStore_def handleAddItem_def addItem_def updateQuantity_def
        paneerTikka_def dalMakhani_def)
  have absent: "7 \<notin> item_id ` set (items ?st)"
    unfolding st by (simp add: cartItemOf_def paneerTikka_def dalMakhani_def)
  note t1 = C8_quantity_at_least_one[of "[HandleAddItem paneerTikka, HandleAddItem paneerTikka, HandleAddItem dalMakhani]" 0 1 ?st]
  note t2 = C8_quantity_at_least_one[of "[]" 5 7 ?st]
  show ?thesis using t1 t2 ne qs absent
    by (simp add: st) (simp add: cartItemOf_def paneerTikka_def dalMakhani_def)
qed

text \<open>
  C4. handleUpdateSpicePreference on a cart for table 5 that holds item 1 with quantity 3
  and the instructions "no onion", and item 2: the spice preference of item 1 is
  replaced, but its quantity is back to 1, its instructions are empty and the cart's
  table identifier is gone. With an identifier that has no line (9) the cart is changed
  in the same way.
\<close>

theorem C4_updateSpicePreference_resets_cart:
  "runActions [SetTableId 5, HandleAddItem paneerTikka, UpdateQuantity 1 3,
               UpdateInstructions 1 ''no onion'', HandleAddItem dalMakhani]
     = \<lparr>items = [(cartItemOf paneerTikka)\<lparr>quantity := 3, special_instructions := Some ''no onion''\<rparr>,
                 cartItemOf dalMakhani],
        tableId = Some 5\<rparr>
   \<and> handleUpdateSpicePreference 1 mild
        (runActions [SetTableId 5, HandleAddItem paneerTikka, UpdateQuantity 1 3,
                     UpdateInstructions 1 ''no onion'', HandleAddItem dalMakhani])
     = \<lparr>items = [(cartItemOf paneerTikka)\<lparr>spice_preference := Some mild\<rparr>, cartItemOf dalMakhani],
        tableId = None\<rparr>
   \<and> handleUpdateSpicePreference 9 mild
        (runActions [SetTableId 5, HandleAddItem paneerTikka, UpdateQuantity 1 3,
                     UpdateInstructions 1 ''no onion'', HandleAddItem dalMakhani])
     = \<lparr>items = [cartItemOf paneerTikka, cartItemOf dalMakhani], tableId = None\<rparr>"
  by (simp add: runActions_def initialOrderStore_def handleAddItem_def addItem_def updateQuantity_def
      updateInstructions_def setTableId_def handleUpdateSpicePreference_def clearCart_def
      cartItemOf_def paneerTikka_def dalMakhani_def)

section \<open>Theorems: failed backend calls\<close>

text \<open>
  C10. When createOrder rejects, handleGenerateKOT leaves the order store (the cart's lines
  and table identifier), the table store and the KOT number as they were, and the
  in-progress flag ends cleared; when the listing fetch rejects, the dashboard's
  fetchTables leaves the stored listing and the selected table as they were and ends with
  the loading flag cleared.
\<close>

theorem C10_failed_backend_call_keeps_state:
  "(createOrder (orderDataOf tid (items (orderStore pg))) = Inl e \<longrightarrow>
      orderStore (handleGenerateKOT tid createOrder getAllTables pg) = orderStore pg
      \<and> tableStore (handleGenerateKOT tid createOrder getAllTables pg) = tableStore pg
      \<and> kotNumber (handleGenerateKOT tid createOrder getAllTables pg) = kotNumber pg
      \<and> isGeneratingKOT (handleGenerateKOT tid createOrder getAllTables pg)
          = (items (orderStore pg) = [] \<and> isGeneratingKOT pg))
   \<and> tables (fst (fetchTables (Inl e') st)) = tables (fst st)
   \<and> selectedTable (fst (fetchTables (Inl e') st)) = selectedTable (fst st)
   \<and> isLoading (fst (fetchTables (Inl e') st)) = False"
  by (simp add: handleGenerateKOT_def fetchTables_def setLoading_def Let_def)

text \<open>C10 on a page with one item in the cart and a backend that rejects.\<close>

theorem C10_failed_backend_call_witness:
  "(\<lambda>d. Inl NetworkError :: error + string) (orderDataOf 5 (items (orderStore examplePage)))
     = Inl NetworkError
   \<and> items (orderStore examplePage) \<noteq> []
   \<and> orderStore (handleGenerateKOT 5 (\<lambda>d. Inl NetworkError) (Inl NetworkError) examplePage)
       = orderStore examplePage
   \<and> items (orderStore (handleGenerateKOT 5 (\<lambda>d. Inr ''K-17'') (Inl NetworkError) examplePage)) = []"
proof -
  have ne: "items (orderStore examplePage) \<noteq> []"
    by (simp add: examplePage_def runActions_def initialOrderStore_def setTableId_def
        handleAddItem_def addItem_def)
  note th = C10_failed_backend_call_keeps_state[of "\<lambda>d. Inl NetworkError" 5 examplePage
      NetworkError "Inl NetworkError"]
  show ?thesis using th ne
    by (simp add: handleGenerateKOT_def Let_def fetchTableData_def clearCart_def)
qed

section \<open>Theorems: aggregation of table rows\<close>

lemma toFixed_2_total: "\<exists>fixed. toFixed 2 x = Inr fixed"
  by (cases x) (simp_all add: toFixed_def)

lemma mergeTables_total: "\<exists>merged. mergeTables existingTable table = Inr merged"
proof -
  obtain fixed where "toFixed 2 (js_add (parseFloat (orZero (total_amount existingTable)))
      (parseFloat (orZero (total_amount table)))) = Inr fixed"
    using toFixed_2_total by blast
  then show ?thesis by (simp add: mergeTables_def Let_def)
qed

lemma mergeTables_not_Inl: "mergeTables existingTable table \<noteq> Inl err"
  using mergeTables_total[of existingTable table] by auto

lemma aggregateRow_total: "\<exists>m'. aggregateRow table m = Inr m'"
proof (cases "map_of m (table_id table)")
  case None
  then show ?thesis by (simp add: aggregateRow_def)
next
  case (Some e)
  obtain merged where "mergeTables e table = Inr merged" using mergeTables_total by blast
  with Some show ?thesis by (simp add: aggregateRow_def)
qed

lemma forEachRow_total: "\<exists>m'. forEachRow rows m = Inr m'"
proof (induction rows arbitrary: m)
  case Nil
  show ?case by simp
next
  case (Cons t rows)
  obtain m1 where "aggregateRow t m = Inr m1" using aggregateRow_total by blast
  with Cons[of m1] show ?case by simp
qed

lemma forEachRow_append:
  "forEachRow (xs @ ys) m = (case forEachRow xs m of Inl e \<Rightarrow> Inl e | Inr m' \<Rightarrow> forEachRow ys m')"
  by (induction xs arbitrary: m) (simp_all split: sum.splits)

lemma aggregateRow_lookup:
  assumes "aggregateRow table m = Inr m'"
  shows "map_of m' tid =
           (if tid = table_id table
            then (case map_of m tid of
                    None \<Rightarrow> Some table
                  | Some e \<Rightarrow> (case mergeTables e table of Inl err \<Rightarrow> None | Inr merged \<Rightarrow> Some merged))
            else map_of m tid)"
  using assms
  by (auto simp: aggregateRow_def update_conv' split: option.splits sum.splits)

lemma aggregateOf_snoc:
  "aggregateOf (pre @ [r]) tid =
     (if tid = table_id r
      then (case aggregateOf pre tid of
              None \<Rightarrow> Some r
            | Some e \<Rightarrow> (case mergeTables e r of Inl err \<Rightarrow> None | Inr merged \<Rightarrow> Some merged))
      else aggregateOf pre tid)"
proof -
  obtain m where m: "forEachRow pre [] = Inr m" using forEachRow_total by blast
  obtain m' where m': "aggregateRow r m = Inr m'" using aggregateRow_total by blast
  have "forEachRow (pre @ [r]) [] = Inr m'" by (simp add: forEachRow_append m m')
  then show ?thesis
    using aggregateRow_lookup[OF m', of tid] by (simp add: aggregateOf_def aggregatedMap_def m)
qed

lemma aggregateOf_Nil: "aggregateOf [] tid = None"
  by (simp add: aggregateOf_def aggregatedMap_def)

lemma aggregateOf_None_iff: "aggregateOf rows tid = None \<longleftrightarrow> tid \<notin> table_id ` set rows"
proof (induction rows rule: rev_induct)
  case Nil
  show ?case by (simp add: aggregateOf_Nil)
next
  case (snoc r rows)
  show ?case using snoc
    by (auto simp: aggregateOf_snoc mergeTables_not_Inl split: option.splits sum.splits)
qed

lemma aggregate_total: "\<exists>ts. aggregate rows = Inr ts"
proof -
  obtain m where "forEachRow rows [] = Inr m" using forEachRow_total by blast
  then show ?thesis by (simp add: aggregate_def aggregatedMap_def)
qed

lemma js_add_zero: "js_add x (Fin 0) = x"
  by (cases x) simp_all

lemma roundDouble_zero: "roundDouble 0 = Fin 0"
  by (simp add: roundDouble_def)

lemma amountOf_absent:
  "total_amount r = Absent \<or> total_amount r = Str [] \<or> total_amount r = Num (Fin 0)
   \<Longrightarrow> amountOf r = Fin 0"
proof -
  have "strDecimalLiteral ''0'' = Fin 0" by code_simp
  then have z: "parseFloatStr ''0'' = Fin 0"
    by (simp add: parseFloatStr_def toDouble_def roundDouble_zero)
  assume "total_amount r = Absent \<or> total_amount r = Str [] \<or> total_amount r = Num (Fin 0)"
  then show ?thesis
    unfolding amountOf_def by (elim disjE; simp add: orZero_def parseFloat_def z)
qed

lemma floor_divide_numeral_rat:
  "\<lfloor>(numeral a / numeral b :: rat)\<rfloor> = numeral a div numeral b"
  by (metis floor_divide_of_int_eq of_int_numeral)

lemma ceiling_divide_numeral_rat:
  "\<lceil>(numeral a / numeral b :: rat)\<rceil> = - ((- numeral a) div numeral b)"
  by (metis ceiling_def floor_divide_of_int_eq of_int_minus of_int_numeral minus_divide_left)

lemmas eval_double = roundDouble_def roundPos_def roundHalfEven_def binExp_def pow2_def
  log2floor.simps Let_def floor_divide_numeral_rat ceiling_divide_numeral_rat js_neg_def

lemmas eval_fixed = toFixed_def fixedDigits_def digitsOf.simps digitChar_def Let_def
  floor_divide_numeral_rat

lemmas eval_parse = parseFloat_def orZero_def parseFloatStr_def toDouble_def

lemmas eval_aggregate = aggregate_def aggregatedMap_def aggregateRow_def mergeTables_def
  row_def orNumber_def orString_def

lemma literal_250: "strDecimalLiteral ''250.00'' = Fin 250"
  by code_simp

lemma literal_180_50: "strDecimalLiteral ''180.50'' = Fin (361 / 2)"
  by code_simp

lemma literal_abc: "strDecimalLiteral ''abc'' = NaN"
  by code_simp

lemma parse_250: "parseFloat (orZero (Str ''250.00'')) = Fin 250"
  by (simp add: eval_parse literal_250) (simp add: eval_double)

lemma parse_180_50: "parseFloat (orZero (Str ''180.50'')) = Fin (361 / 2)"
  by (simp add: eval_parse literal_180_50) (simp add: eval_double)

lemma parse_abc: "parseFloat (orZero (Str ''abc'')) = NaN"
  by (simp add: eval_parse literal_abc)

lemma add_250_180_50: "js_add (Fin 250) (Fin (361 / 2)) = Fin (861 / 2)"
  by (simp add: eval_double)

lemma add_250_NaN: "js_add (Fin 250) NaN = NaN"
  by simp

lemma fixed_430_50: "toFixed 2 (Fin (861 / 2)) = Inr ''430.50''"
  by (simp add: eval_fixed)

lemma fixed_250: "toFixed 2 (Fin 250) = Inr ''250.00''"
  by (simp add: eval_fixed)

lemma fixed_NaN: "toFixed 2 NaN = Inr ''NaN''"
  by (simp add: toFixed_def)

text \<open>
  C5, the claim as stated fails: a second row for table 7 whose amount is the string
  "abc" does not contribute zero. The running total 250.00 becomes "NaN", where a
  contribution of zero would leave "250.00".
\<close>

theorem C5_malformed_amount_counterexample:
  "aggregate [row 7 ''5'' ''A'' running (Some 31) (Str ''250.00''),
              row 7 ''5'' ''A'' running (Some 32) (Str ''abc'')]
     = Inr [row 7 ''5'' ''A'' running (Some 31) (Str ''NaN'')]
   \<and> toFixed 2 (js_add (Fin 250) (Fin 0)) = Inr ''250.00''"
  by (simp add: eval_aggregate parse_250 parse_abc add_250_NaN fixed_250 fixed_NaN del: js_add.simps)
    (simp add: fixed_250)

text \<open>
  C5 (amended). aggregate returns a result for every row list, no error is raised; a row
  whose amount is absent (null or undefined), the empty string or the number 0 reads as
  zero, and merging it into a table seen before stores the two-decimal rendering of the
  existing running total alone.
\<close>

theorem C5_aggregate_never_fails:
  "(\<exists>ts. aggregate rows = Inr ts)
   \<and> (total_amount r = Absent \<or> total_amount r = Str [] \<or> total_amount r = Num (Fin 0) \<longrightarrow>
        amountOf r = Fin 0
        \<and> (\<forall>e. aggregateOf pre (table_id r) = Some e \<longrightarrow>
              (\<exists>fixed. toFixed 2 (amountOf e) = Inr fixed
                 \<and> map_option total_amount (aggregateOf (pre @ [r]) (table_id r))
                     = Some (Str fixed))))"
proof -
  have b: "amountOf r = Fin 0
        \<and> (\<forall>e. aggregateOf pre (table_id r) = Some e \<longrightarrow>
              (\<exists>fixed. toFixed 2 (amountOf e) = Inr fixed
                 \<and> map_option total_amount (aggregateOf (pre @ [r]) (table_id r))
                     = Some (Str fixed)))"
    if h: "total_amount r = Absent \<or> total_amount r = Str [] \<or> total_amount r = Num (Fin 0)"
  proof -
    have z: "amountOf r = Fin 0" using h by (rule amountOf_absent)
    have "\<exists>fixed. toFixed 2 (amountOf e) = Inr fixed
                 \<and> map_option total_amount (aggregateOf (pre @ [r]) (table_id r))
                     = Some (Str fixed)"
      if e: "aggregateOf pre (table_id r) = Some e" for e
    proof -
      obtain fixed where f: "toFixed 2 (amountOf e) = Inr fixed" using toFixed_2_total by blast
      have "mergeTables e r = Inr (e\<lparr>total_amount := Str fixed,
              status := (if status r = running then running else status e),
              current_order_id := orNumber (current_order_id e) (current_order_id r),
              order_number := orString (order_number e) (order_number r)\<rparr>)"
        using z f by (simp add: mergeTables_def amountOf_def js_add_zero)
      then show ?thesis using e f by (simp add: aggregateOf_snoc)
    qed
    with z show ?thesis by blast
  qed
  from aggregate_total[of rows] b show ?thesis by blast
qed

text \<open>C5 (amended) at a row without amount merged into a total of 250.00.\<close>

theorem C5_aggregate_never_fails_witness:
  "total_amount (row 7 ''5'' ''A'' running (Some 32) Absent) = Absent
   \<and> aggregateOf [row 7 ''5'' ''A'' running (Some 31) (Str ''250.00'')] 7
       = Some (row 7 ''5'' ''A'' running (Some 31) (Str ''250.00''))
   \<and> map_option total_amount
        (aggregateOf ([row 7 ''5'' ''A'' running (Some 31) (Str ''250.00'')]
                        @ [row 7 ''5'' ''A'' running (Some 32) Absent]) 7)
       = Some (Str ''250.00'')
   \<and> (\<exists>ts. aggregate [row 7 ''5'' ''A'' running (Some 31) (Str ''250.00''),
                        row 7 ''5'' ''A'' running (Some 32) Absent] = Inr ts)"
proof -
  let ?r = "row 7 ''5'' ''A'' running (Some 32) Absent"
  let ?e = "row 7 ''5'' ''A'' running (Some 31) (Str ''250.00'')"
  have a: "total_amount ?r = Absent" by (simp add: row_def)
  have i: "table_id ?r = 7" by (simp add: row_def)
  have e: "aggregateOf [?e] 7 = Some ?e"
    by (simp add: aggregateOf_def aggregatedMap_def aggregateRow_def row_def)
  have f: "toFixed 2 (amountOf ?e) = Inr ''250.00''"
    by (simp add: amountOf_def row_def parse_250 fixed_250)
  note th = C5_aggregate_never_fails[of "[?e, ?r]" ?r "[?e]"]
  show ?thesis using th a e f unfolding i by auto
qed

text \<open>
  C2, the claim as stated fails: the first row's running-order identifier is 0, which is
  not null, and the merge overwrites it with the second row's 31, because \<open>||\<close> takes
  0 for absent.
\<close>

theorem C2_zero_order_id_counterexample:
  "aggregate [row 7 ''5'' ''A'' running (Some 0) (Str ''250.00''),
              row 7 ''5'' ''A'' empty (Some 31) (Str ''180.50'')]
     = Inr [row 7 ''5'' ''A'' running (Some 31) (Str ''430.50'')]"
  by (simp add: eval_aggregate parse_250 parse_180_50 add_250_180_50 fixed_430_50
        del: js_add.simps)

text \<open>
  C2 (amended). When the aggregator meets a row whose table identifier was already seen,
  the stored total becomes the toFixed(2) rendering of the existing total plus the row's
  amount; the status is running exactly when the existing entry or the row is running,
  and otherwise stays the existing one; a running-order identifier that is present and not
  0 is kept, and an absent or 0 one is replaced by the row's; number, block and capacity
  stay. Two rows of one table with amounts 250.00 and 180.50, one running and one not,
  in either order, give one entry with total "430.50" and status running.
\<close>

theorem C2_merge_of_seen_table:
  "(aggregateOf pre (table_id r) = Some e \<longrightarrow>
      (\<exists>merged fixed.
          aggregateOf (pre @ [r]) (table_id r) = Some merged
        \<and> toFixed 2 (js_add (amountOf e) (amountOf r)) = Inr fixed
        \<and> total_amount merged = Str fixed
        \<and> (status merged = running \<longleftrightarrow> status e = running \<or> status r = running)
        \<and> (status r \<noteq> running \<longrightarrow> status merged = status e)
        \<and> (\<forall>k. current_order_id e = Some k \<and> k \<noteq> 0 \<longrightarrow> current_order_id merged = Some k)
        \<and> (current_order_id e = None \<or> current_order_id e = Some 0 \<longrightarrow>
              current_order_id merged = current_order_id r)
        \<and> table_id merged = table_id e \<and> table_number merged = table_number e
        \<and> table_block merged = table_block e
        \<and> seating_capacity merged = seating_capacity e))
   \<and> aggregate [row 7 ''5'' ''A'' empty None (Str ''250.00''),
                row 7 ''5'' ''A'' running (Some 31) (Str ''180.50'')]
       = Inr [row 7 ''5'' ''A'' running (Some 31) (Str ''430.50'')]
   \<and> aggregate [row 7 ''5'' ''A'' running (Some 31) (Str ''250.00''),
                row 7 ''5'' ''A'' empty None (Str ''180.50'')]
       = Inr [row 7 ''5'' ''A'' running (Some 31) (Str ''430.50'')]"
proof -
  have a: "\<exists>merged fixed.
          aggregateOf (pre @ [r]) (table_id r) = Some merged
        \<and> toFixed 2 (js_add (amountOf e) (amountOf r)) = Inr fixed
        \<and> total_amount merged = Str fixed
        \<and> (status merged = running \<longleftrightarrow> status e = running \<or> status r = running)
        \<and> (status r \<noteq> running \<longrightarrow> status merged = status e)
        \<and> (\<forall>k. current_order_id e = Some k \<and> k \<noteq> 0 \<longrightarrow> current_order_id merged = Some k)
        \<and> (current_order_id e = None \<or> current_order_id e = Some 0 \<longrightarrow>
              current_order_id merged = current_order_id r)
        \<and> table_id merged = table_id e \<and> table_number merged = table_number e
        \<and> table_block merged = table_block e
        \<and> seating_capacity merged = seating_capacity e"
    if e: "aggregateOf pre (table_id r) = Some e"
  proof -
    obtain fixed where f: "toFixed 2 (js_add (amountOf e) (amountOf r)) = Inr fixed"
      using toFixed_2_total by blast
    let ?m = "e\<lparr>total_amount := Str fixed,
              status := (if status r = running then running else status e),
              current_order_id := orNumber (current_order_id e) (current_order_id r),
              order_number := orString (order_number e) (order_number r)\<rparr>"
    have m: "mergeTables e r = Inr ?m"
      using f by (simp add: mergeTables_def amountOf_def)
    have s: "aggregateOf (pre @ [r]) (table_id r) = Some ?m"
      using e m by (simp add: aggregateOf_snoc)
    have p: "total_amount ?m = Str fixed
        \<and> (status ?m = running \<longleftrightarrow> status e = running \<or> status r = running)
        \<and> (status r \<noteq> running \<longrightarrow> status ?m = status e)
        \<and> (\<forall>k. current_order_id e = Some k \<and> k \<noteq> 0 \<longrightarrow> current_order_id ?m = Some k)
        \<and> (current_order_id e = None \<or> current_order_id e = Some 0 \<longrightarrow>
              current_order_id ?m = current_order_id r)
        \<and> table_id ?m = table_id e \<and> table_number ?m = table_number e
        \<and> table_block ?m = table_block e
        \<and> seating_capacity ?m = seating_capacity e"
      by (auto simp: orNumber_def)
    from s f p show ?thesis by blast
  qed
  have b: "aggregate [row 7 ''5'' ''A'' empty None (Str ''250.00''),
                row 7 ''5'' ''A'' running (Some 31) (Str ''180.50'')]
       = Inr [row 7 ''5'' ''A'' running (Some 31) (Str ''430.50'')]"
    by (simp add: eval_aggregate parse_250 parse_180_50 add_250_180_50 fixed_430_50
        del: js_add.simps)
  have c: "aggregate [row 7 ''5'' ''A'' running (Some 31) (Str ''250.00''),
                row 7 ''5'' ''A'' empty None (Str ''180.50'')]
       = Inr [row 7 ''5'' ''A'' running (Some 31) (Str ''430.50'')]"
    by (simp add: eval_aggregate parse_250 parse_180_50 add_250_180_50 fixed_430_50
        del: js_add.simps)
  from a b c show ?thesis by blast
qed

text \<open>C2 (amended) at the two rows of the example.\<close>

theorem C2_merge_of_seen_table_witness:
  "aggregateOf [row 7 ''5'' ''A'' empty None (Str ''250.00'')] 7
       = Some (row 7 ''5'' ''A'' empty None (Str ''250.00''))
   \<and> aggregateOf ([row 7 ''5'' ''A'' empty None (Str ''250.00'')]
                    @ [row 7 ''9'' ''B'' running (Some 31) (Str ''180.50'')]) 7
       = Some (row 7 ''5'' ''A'' running (Some 31) (Str ''430.50''))"
proof -
  let ?e = "row 7 ''5'' ''A'' empty None (Str ''250.00'')"
  let ?r = "row 7 ''9'' ''B'' running (Some 31) (Str ''180.50'')"
  have i: "table_id ?r = 7" by (simp add: row_def)
  have e: "aggregateOf [?e] 7 = Some ?e"
    by (simp add: aggregateOf_def aggregatedMap_def aggregateRow_def row_def)
  have f: "toFixed 2 (js_add (amountOf ?e) (amountOf ?r)) = Inr ''430.50''"
    by (simp add: amountOf_def row_def parse_250 parse_180_50 add_250_180_50 fixed_430_50
        del: js_add.simps)
  have v: "aggregateOf ([?e] @ [?r]) 7 = Some (row 7 ''5'' ''A'' running (Some 31) (Str ''430.50''))"
    by (simp add: aggregateOf_def eval_aggregate parse_250 parse_180_50 add_250_180_50
        fixed_430_50 del: js_add.simps)
  note th = C2_merge_of_seen_table[of "[?e]" ?r ?e]
  show ?thesis using th e f v unfolding i by simp
qed

section \<open>Theorems: ordering of tables within a block\<close>

lemma localeCompare_le_0: "localeCompare a b \<le> 0 \<longleftrightarrow> a \<le> b"
  by (auto simp: localeCompare_def)

lemma insertBy_localeCompare:
  "insertBy (\<lambda>a b. localeCompare (table_number a) (table_number b)) x ys
     = insort_key table_number x ys"
  by (induction ys) (simp_all add: localeCompare_le_0)

lemma js_sort_localeCompare:
  "js_sort (\<lambda>a b. localeCompare (table_number a) (table_number b)) xs = sort_key table_number xs"
  by (induction xs) (simp_all add: js_sort_def insertBy_localeCompare)

lemma map_of_groupStep:
  "map_of (groupStep acc t) b =
     (if table_block t = b
      then (case map_of acc b of None \<Rightarrow> Some [t] | Some ts \<Rightarrow> Some (ts @ [t]))
      else map_of acc b)"
  by (auto simp: groupStep_def Let_def update_conv' split: option.splits)

lemma map_of_foldl_groupStep:
  "map_of (foldl groupStep acc ts) b =
     (case map_of acc b of
        None \<Rightarrow> (if filter (\<lambda>t. table_block t = b) ts = [] then None
                   else Some (filter (\<lambda>t. table_block t = b) ts))
      | Some xs \<Rightarrow> Some (xs @ filter (\<lambda>t. table_block t = b) ts))"
  by (induction ts arbitrary: acc) (auto simp: map_of_groupStep split: option.splits)

lemma tablesOfBlock_filter:
  "tablesOfBlock tableArray block = filter (\<lambda>t. table_block t = block) tableArray"
  by (simp add: tablesOfBlock_def groupedTables_def map_of_foldl_groupStep)

lemma renderBlock_sort_key:
  "renderBlock tableArray block
     = sort_key table_number (filter (\<lambda>t. table_block t = block) tableArray)"
  by (simp add: renderBlock_def js_sort_localeCompare tablesOfBlock_filter)

text \<open>
  C3, the claim as stated fails: the display numbers "2", "10", "1" of one block are drawn
  in the order "1", "10", "2", not "1", "2", "10".
\<close>

theorem C3_numeric_order_counterexample:
  "map table_number
     (renderBlock [row 1 ''2'' ''A'' empty None Absent, row 2 ''10'' ''A'' empty None Absent,
                   row 3 ''1'' ''A'' empty None Absent] ''A'')
     = [''1'', ''10'', ''2'']
   \<and> map table_number
     (renderBlock [row 1 ''2'' ''A'' empty None Absent, row 2 ''10'' ''A'' empty None Absent,
                   row 3 ''1'' ''A'' empty None Absent] ''A'')
     \<noteq> [''1'', ''2'', ''10'']"
  by (simp add: renderBlock_sort_key row_def)

text \<open>
  C3 (amended). For every listing whose display numbers are strings of digits and every
  block, the tables of the block are drawn sorted by display number in plain
  character-by-character (lexicographic) string order, not numeric order: the drawn list
  is sorted in that order, holds exactly the block's tables, and keeps tables with equal
  display numbers in their listing order. The display numbers "2", "10", "1" are drawn as
  "1", "10", "2".
\<close>

theorem C3_lexicographic_order_within_block:
  "((\<forall>t\<in>set tableArray. digitString (table_number t)) \<longrightarrow>
      sorted (map table_number (renderBlock tableArray block))
      \<and> mset (renderBlock tableArray block)
          = mset (filter (\<lambda>t. table_block t = block) tableArray)
      \<and> filter (\<lambda>t. table_number t = k) (renderBlock tableArray block)
          = filter (\<lambda>t. table_number t = k) (filter (\<lambda>t. table_block t = block) tableArray))
   \<and> map table_number
       (renderBlock [row 1 ''2'' ''A'' empty None Absent, row 2 ''10'' ''A'' empty None Absent,
                     row 3 ''1'' ''A'' empty None Absent] ''A'')
       = [''1'', ''10'', ''2'']"
proof -
  have a: "sorted (map table_number (renderBlock tableArray block))"
    by (simp add: renderBlock_sort_key)
  have b: "mset (renderBlock tableArray block)
          = mset (filter (\<lambda>t. table_block t = block) tableArray)"
    by (simp add: renderBlock_sort_key)
  have c: "filter (\<lambda>t. table_number t = k) (renderBlock tableArray block)
          = filter (\<lambda>t. table_number t = k) (filter (\<lambda>t. table_block t = block) tableArray)"
    unfolding renderBlock_sort_key by (rule sort_key_stable)
  have d: "map table_number
       (renderBlock [row 1 ''2'' ''A'' empty None Absent, row 2 ''10'' ''A'' empty None Absent,
                     row 3 ''1'' ''A'' empty None Absent] ''A'')
       = [''1'', ''10'', ''2'']"
    by (simp add: renderBlock_sort_key row_def)
  from a b c d show ?thesis by blast
qed

text \<open>C3 (amended) at the three tables of the example.\<close>

theorem C3_lexicographic_order_witness:
  "digitString ''2'' \<and> digitString ''10'' \<and> digitString ''1''
   \<and> sorted [''1'', ''10'', ''2'']
   \<and> map table_id
       (renderBlock [row 1 ''2'' ''A'' empty None Absent, row 2 ''10'' ''A'' empty None Absent,
                     row 3 ''1'' ''A'' empty None Absent] ''A'')
       = [3, 2, 1]"
proof -
  let ?ts = "[row 1 ''2'' ''A'' empty None Absent, row 2 ''10'' ''A'' empty None Absent,
              row 3 ''1'' ''A'' empty None Absent]"
  have dg: "digitString ''2'' \<and> digitString ''10'' \<and> digitString ''1''"
    by (simp add: digitString_def isDigit_def)
  have h: "\<forall>t\<in>set ?ts. digitString (table_number t)"
    using dg by (simp add: row_def)
  have n: "map table_number (renderBlock ?ts ''A'') = [''1'', ''10'', ''2'']"
    by (simp add: renderBlock_sort_key row_def)
  have i: "map table_id (renderBlock ?ts ''A'') = [3, 2, 1]"
    by (simp add: renderBlock_sort_key row_def)
  note th = C3_lexicographic_order_within_block[of ?ts "''A''" "''1''"]
  from th h have "sorted (map table_number (renderBlock ?ts ''A''))" by blast
  then have "sorted [''1'', ''10'', ''2'']" unfolding n .
  with dg i show ?thesis by blast
qed

section \<open>Theorems: rounding to a double\<close>

lemma roundHalfEven_error: "\<bar>of_int (roundHalfEven x) - x\<bar> \<le> 1 / 2"
proof -
  have "of_int \<lfloor>x\<rfloor> \<le> x" "x < of_int \<lfloor>x\<rfloor> + 1" by linarith+
  then show ?thesis by (auto simp: roundHalfEven_def Let_def)
qed

lemma roundHalfEven_of_int: "roundHalfEven (of_int m) = m"
  by (simp add: roundHalfEven_def)

lemma log2floor_le: "0 < n \<Longrightarrow> 2 ^ log2floor n \<le> n"
proof (induction n rule: log2floor.induct)
  case (1 n)
  show ?case
  proof (cases "n < 2")
    case True
    with "1.prems" show ?thesis by (subst log2floor.simps) simp
  next
    case False
    then have "0 < n div 2" by simp
    with "1.IH" False have "2 ^ log2floor (n div 2) \<le> n div 2" by simp
    then have "2 * 2 ^ log2floor (n div 2) \<le> n" by simp
    with False show ?thesis by (subst log2floor.simps) simp
  qed
qed

lemma binExp_less:
  assumes "0 < x" "x < 2 ^ m"
  shows "binExp x < int m"
proof (cases "1 \<le> x")
  case True
  define n where "n = nat \<lfloor>x\<rfloor>"
  have n: "0 < n" "(of_nat n :: rat) \<le> x" using True by (simp_all add: n_def)
  have "(of_nat (2 ^ log2floor n) :: rat) \<le> of_nat n"
    using log2floor_le[OF n(1)] by (rule iffD2[OF of_nat_le_iff])
  then have "(2 :: rat) ^ log2floor n \<le> of_nat n" by simp
  then have "(2 :: rat) ^ log2floor n < 2 ^ m" using n(2) assms(2) by linarith
  then have "log2floor n < m" by simp
  with True show ?thesis by (simp add: binExp_def n_def)
next
  case False
  then show ?thesis by (simp add: binExp_def)
qed

lemma binExp_nonneg: "1 \<le> x \<Longrightarrow> 0 \<le> binExp x"
  by (simp add: binExp_def)

lemma pow2_pos: "0 < pow2 e"
  by (simp add: pow2_def)

lemma pow2_mono: "e \<le> e' \<Longrightarrow> pow2 e \<le> pow2 e'"
proof -
  have p: "pow2 i = 2 powi i" for i
    by (simp add: pow2_def power_int_def field_simps)
  assume "e \<le> e'"
  then show ?thesis unfolding p by (simp add: power_int_increasing)
qed

lemma roundPos_error:
  assumes "0 < x" "x < 2 ^ 44"
  shows "\<exists>d. roundPos x = Fin d \<and> \<bar>d - x\<bar> \<le> 1 / 2 ^ 10"
proof -
  define u where "u = pow2 (max (binExp x) (- 1022) - 52)"
  define n where "n = roundHalfEven (x / u)"
  have up: "0 < u" by (simp add: u_def pow2_pos)
  have "binExp x < 44" using binExp_less[OF assms] by simp
  then have "max (binExp x) (- 1022) - 52 \<le> - 9" by simp
  then have "u \<le> pow2 (- 9)" unfolding u_def by (rule pow2_mono)
  then have ub: "u \<le> 1 / 2 ^ 9" by (simp add: pow2_def)
  have "\<bar>of_int n - x / u\<bar> \<le> 1 / 2" unfolding n_def by (rule roundHalfEven_error)
  then have "\<bar>of_int n - x / u\<bar> * u \<le> 1 / 2 * u" using up by (simp add: mult_right_mono)
  moreover have "\<bar>of_int n - x / u\<bar> * u = \<bar>of_int n * u - x\<bar>"
  proof -
    have "(of_int n - x / u) * u = of_int n * u - x" using up by (simp add: field_simps)
    then have "\<bar>of_int n * u - x\<bar> = \<bar>of_int n - x / u\<bar> * \<bar>u\<bar>" by (metis abs_mult)
    with up show ?thesis by simp
  qed
  ultimately have e: "\<bar>of_int n * u - x\<bar> \<le> u / 2" by simp
  with ub have err: "\<bar>of_int n * u - x\<bar> \<le> 1 / 2 ^ 10" by simp
  have "of_int n * u - x \<le> \<bar>of_int n * u - x\<bar>" by simp
  with err have "of_int n * u - x \<le> 1 / 2 ^ 10" by linarith
  moreover have "(1 :: rat) / 2 ^ 10 < 1" by simp
  ultimately have "of_int n * u < 2 ^ 44 + 1" using assms(2) by linarith
  moreover have "(2 :: rat) ^ 44 + 1 < 2 ^ 1024" by simp
  ultimately have "\<not> 2 ^ 1024 \<le> of_int n * u" by linarith
  then have "roundPos x = Fin (of_int n * u)"
    by (simp add: roundPos_def Let_def u_def[symmetric] n_def[symmetric])
  with err show ?thesis by blast
qed

lemma roundDouble_error:
  assumes "\<bar>x\<bar> < 2 ^ 44"
  shows "\<exists>d. roundDouble x = Fin d \<and> \<bar>d - x\<bar> \<le> 1 / 2 ^ 10"
proof -
  consider "x = 0" | "x < 0" | "0 < x" by linarith
  then show ?thesis
  proof cases
    case 1
    then show ?thesis by (simp add: roundDouble_def)
  next
    case 2
    then have "0 < - x" "- x < 2 ^ 44" using assms by simp_all
    from roundPos_error[OF this] obtain d where "roundPos (- x) = Fin d" "\<bar>d - (- x)\<bar> \<le> 1 / 2 ^ 10"
      by blast
    then have rd: "roundDouble x = Fin (- d)" and e: "\<bar>d + x\<bar> \<le> 1 / 2 ^ 10"
      using 2 by (simp_all add: roundDouble_def js_neg_def)
    have "\<bar>(- d) - x\<bar> = \<bar>d + x\<bar>" by (auto simp: abs_if)
    with rd e show ?thesis by auto
  next
    case 3
    then have "x < 2 ^ 44" using assms by simp
    from roundPos_error[OF 3 this] 3 show ?thesis by (simp add: roundDouble_def)
  qed
qed

lemma roundPos_of_int:
  assumes "0 < k" "k < 2 ^ 53"
  shows "roundPos (of_int k) = Fin (of_int k)"
proof -
  let ?x = "of_int k :: rat"
  have x1: "1 \<le> ?x" using assms(1) by simp
  have "?x < 2 ^ 53" using assms(2) by (metis of_int_less_iff of_int_numeral of_int_power)
  then have "binExp ?x < 53" using binExp_less[of ?x 53] x1 by simp
  moreover have "0 \<le> binExp ?x" using x1 by (rule binExp_nonneg)
  ultimately have b: "binExp ?x \<le> 52" by simp
  define j where "j = nat (52 - binExp ?x)"
  have j: "binExp ?x - 52 = - int j" using b by (simp add: j_def)
  have m: "max (binExp ?x) (- 1022) = binExp ?x" using \<open>0 \<le> binExp ?x\<close> by simp
  have u: "pow2 (max (binExp ?x) (- 1022) - 52) = 1 / 2 ^ j"
    unfolding m j by (cases "j = 0") (simp_all add: pow2_def)
  have q: "?x / (1 / 2 ^ j) = of_int (k * 2 ^ j)" by simp
  have r: "of_int (roundHalfEven (?x / (1 / 2 ^ j))) * (1 / 2 ^ j) = ?x"
    unfolding q roundHalfEven_of_int by simp
  have "\<not> (2 :: rat) ^ 1024 \<le> ?x"
  proof -
    have "?x < 2 ^ 53" by fact
    moreover have "(2 :: rat) ^ 53 < 2 ^ 1024" by simp
    ultimately show ?thesis by linarith
  qed
  then show ?thesis unfolding roundPos_def Let_def u r by simp
qed

lemma roundDouble_of_int:
  assumes "\<bar>k\<bar> < 2 ^ 53"
  shows "roundDouble (of_int k) = Fin (of_int k)"
proof -
  consider "k = 0" | "k < 0" | "0 < k" by linarith
  then show ?thesis
  proof cases
    case 1
    then show ?thesis by (simp add: roundDouble_def)
  next
    case 2
    then have "0 < - k" "- k < 2 ^ 53" using assms by simp_all
    from roundPos_of_int[OF this] 2 show ?thesis
      by (simp add: roundDouble_def js_neg_def)
  next
    case 3
    then have "k < 2 ^ 53" using assms by simp
    from roundPos_of_int[OF 3 this] 3 show ?thesis by (simp add: roundDouble_def)
  qed
qed

section \<open>Theorems: subtotal\<close>

lemma roundDouble_of_int_rat:
  assumes "\<bar>of_int k :: rat\<bar> < 2 ^ 53"
  shows "roundDouble (of_int k) = Fin (of_int k)"
proof -
  have "(of_int \<bar>k\<bar> :: rat) < of_int (2 ^ 53)" using assms by simp
  then have "\<bar>k\<bar> < 2 ^ 53" by (simp only: of_int_less_iff)
  then show ?thesis by (rule roundDouble_of_int)
qed

lemma js_add_of_int:
  assumes "\<bar>of_int a :: rat\<bar> + \<bar>of_int b\<bar> < 2 ^ 53"
  shows "js_add (Fin (of_int a)) (Fin (of_int b)) = Fin (of_int (a + b))"
proof -
  have "\<bar>of_int (a + b) :: rat\<bar> \<le> \<bar>of_int a\<bar> + \<bar>of_int b\<bar>" by simp
  with assms have "\<bar>of_int (a + b) :: rat\<bar> < 2 ^ 53" by linarith
  then have "roundDouble (of_int (a + b)) = Fin (of_int (a + b))" by (rule roundDouble_of_int_rat)
  then show ?thesis by simp
qed

lemma js_mul_of_int:
  assumes "\<bar>of_int a :: rat\<bar> * \<bar>of_int b\<bar> < 2 ^ 53"
  shows "js_mul (Fin (of_int a)) (Fin (of_int b)) = Fin (of_int (a * b))"
proof -
  have "\<bar>of_int (a * b) :: rat\<bar> = \<bar>of_int a\<bar> * \<bar>of_int b\<bar>" by (simp add: abs_mult)
  with assms have "\<bar>of_int (a * b) :: rat\<bar> < 2 ^ 53" by simp
  then have "roundDouble (of_int (a * b)) = Fin (of_int (a * b))" by (rule roundDouble_of_int_rat)
  then show ?thesis by simp
qed

lemma subtotal_fold_whole:
  assumes "\<forall>item\<in>set xs. price item = of_int \<lfloor>price item\<rfloor> \<and> 0 \<le> quantity item"
    and "\<bar>of_int A :: rat\<bar> + (\<Sum>item\<leftarrow>xs. \<bar>price item\<bar> * of_int (quantity item)) < 2 ^ 53"
  shows "foldl (\<lambda>sum item. js_add sum (js_mul (Fin (price item)) (Fin (of_int (quantity item)))))
           (Fin (of_int A)) xs
         = Fin (of_int A + (\<Sum>item\<leftarrow>xs. price item * of_int (quantity item)))"
  using assms
proof (induction xs arbitrary: A)
  case Nil
  show ?case by simp
next
  case (Cons l xs)
  define p where "p = \<lfloor>price l\<rfloor>"
  define q where "q = quantity l"
  have pl: "price l = of_int p" and q0: "0 \<le> q" using Cons.prems(1) by (simp_all add: p_def q_def)
  have rest0: "0 \<le> (\<Sum>item\<leftarrow>xs. \<bar>price item\<bar> * of_int (quantity item))"
    using Cons.prems(1) by (intro sum_list_nonneg) auto
  have b: "\<bar>of_int A :: rat\<bar> + \<bar>of_int p\<bar> * of_int q
             + (\<Sum>item\<leftarrow>xs. \<bar>price item\<bar> * of_int (quantity item)) < 2 ^ 53"
    using Cons.prems(2) by (simp add: pl q_def)
  have aq: "\<bar>of_int q :: rat\<bar> = of_int q" using q0 by simp
  have m: "js_mul (Fin (of_int p)) (Fin (of_int q)) = Fin (of_int (p * q))"
  proof (rule js_mul_of_int)
    have "0 \<le> \<bar>of_int A :: rat\<bar>" by simp
    with b rest0 show "\<bar>of_int p :: rat\<bar> * \<bar>of_int q\<bar> < 2 ^ 53" unfolding aq by linarith
  qed
  have pq: "\<bar>of_int (p * q) :: rat\<bar> = \<bar>of_int p\<bar> * of_int q"
    using q0 by (simp add: abs_mult)
  have a: "js_add (Fin (of_int A)) (Fin (of_int (p * q))) = Fin (of_int (A + p * q))"
  proof (rule js_add_of_int)
    from b rest0 show "\<bar>of_int A :: rat\<bar> + \<bar>of_int (p * q)\<bar> < 2 ^ 53" unfolding pq by linarith
  qed
  have "\<bar>of_int (A + p * q) :: rat\<bar> \<le> \<bar>of_int A\<bar> + \<bar>of_int (p * q)\<bar>" by simp
  with b have b': "\<bar>of_int (A + p * q) :: rat\<bar>
      + (\<Sum>item\<leftarrow>xs. \<bar>price item\<bar> * of_int (quantity item)) < 2 ^ 53"
    unfolding pq by linarith
  have ih: "foldl (\<lambda>sum item. js_add sum (js_mul (Fin (price item)) (Fin (of_int (quantity item)))))
           (Fin (of_int (A + p * q))) xs
         = Fin (of_int (A + p * q) + (\<Sum>item\<leftarrow>xs. price item * of_int (quantity item)))"
    using Cons.IH[of "A + p * q"] Cons.prems(1) b' by simp
  have m': "js_mul (Fin (of_int p)) (Fin (of_int q)) = Fin (of_int p * of_int q)"
    using m by (simp del: js_mul.simps)
  have a': "js_add (Fin (of_int A)) (Fin (of_int p * of_int q))
              = Fin (of_int A + of_int p * of_int q)"
    using a by (simp del: js_add.simps)
  show ?case
    using ih by (simp add: pl q_def[symmetric] m' a' add.assoc del: js_add.simps js_mul.simps)
qed

text \<open>
  C1, the claim as stated fails: with one line of unit price 99.99 (the double nearest to
  it) and quantity 3, getSubtotal returns 299.96999999999997, the product rounded to a
  double, which is not the sum of unit price times quantity.
\<close>

theorem C1_rounded_subtotal_counterexample:
  "roundDouble (9999 / 100) = Fin (price masalaChai)
   \<and> map quantity (items (runActions [HandleAddItem masalaChai, HandleAddItem masalaChai,
                                       HandleAddItem masalaChai])) = [3]
   \<and> getSubtotal (runActions [HandleAddItem masalaChai, HandleAddItem masalaChai,
                              HandleAddItem masalaChai])
       = Fin (5277128047743467 / 17592186044416)
   \<and> (\<Sum>item\<leftarrow>items (runActions [HandleAddItem masalaChai, HandleAddItem masalaChai,
                                      HandleAddItem masalaChai]).
          price item * of_int (quantity item))
       = 21108512190973869 / 70368744177664
   \<and> getSubtotal (runActions [HandleAddItem masalaChai, HandleAddItem masalaChai,
                              HandleAddItem masalaChai])
       \<noteq> Fin (\<Sum>item\<leftarrow>items (runActions [HandleAddItem masalaChai, HandleAddItem masalaChai,
                                            HandleAddItem masalaChai]).
                 price item * of_int (quantity item))"
proof -
  let ?st = "runActions [HandleAddItem masalaChai, HandleAddItem masalaChai,
                         HandleAddItem masalaChai]"
  have st: "items ?st = [(cartItemOf masalaChai)\<lparr>quantity := 3\<rparr>]"
    by (simp add: runActions_def initialOrderStore_def handleAddItem_def addItem_def
        updateQuantity_def cartItemOf_def)
  have p: "roundDouble (9999 / 100) = Fin (price masalaChai)"
    by (simp add: masalaChai_def) (simp add: eval_double)
  have q: "map quantity (items ?st) = [3]" unfolding st by simp
  have m: "js_mul (Fin (7036170730324623 / 70368744177664)) (Fin 3)
             = Fin (5277128047743467 / 17592186044416)"
    by (simp add: eval_double)
  have g: "getSubtotal ?st = Fin (5277128047743467 / 17592186044416)"
    unfolding getSubtotal_def st
    by (simp add: cartItemOf_def masalaChai_def m del: js_mul.simps)
  have s: "(\<Sum>item\<leftarrow>items ?st. price item * of_int (quantity item))
             = 21108512190973869 / 70368744177664"
    unfolding st by (simp add: cartItemOf_def masalaChai_def)
  have n: "getSubtotal ?st \<noteq> Fin (\<Sum>item\<leftarrow>items ?st. price item * of_int (quantity item))"
    unfolding g s by simp
  from p q g s n show ?thesis by blast
qed

text \<open>
  C1 (amended). After any sequence of cart actions applied to the initially empty cart,
  when the unit prices of the lines are whole numbers and the sum over the lines of
  |unit price| times quantity is below 2^53, getSubtotal is exactly the sum, over the
  lines then in the cart, of unit price times quantity: no product and no partial sum
  is rounded.
\<close>

theorem C1_subtotal_of_whole_prices:
  "(\<forall>item\<in>set (items (runActions acts)). price item = of_int \<lfloor>price item\<rfloor>)
   \<and> (\<Sum>item\<leftarrow>items (runActions acts). \<bar>price item\<bar> * of_int (quantity item)) < 2 ^ 53
   \<longrightarrow> getSubtotal (runActions acts)
         = Fin (\<Sum>item\<leftarrow>items (runActions acts). price item * of_int (quantity item))"
proof
  assume h: "(\<forall>item\<in>set (items (runActions acts)). price item = of_int \<lfloor>price item\<rfloor>)
   \<and> (\<Sum>item\<leftarrow>items (runActions acts). \<bar>price item\<bar> * of_int (quantity item)) < 2 ^ 53"
  have "\<forall>item\<in>set (items (runActions acts)). 1 \<le> quantity item"
    using cart_ok_runActions[of acts] by (simp add: cart_ok_def)
  then have q: "\<forall>item\<in>set (items (runActions acts)).
      price item = of_int \<lfloor>price item\<rfloor> \<and> 0 \<le> quantity item"
    using h by fastforce
  have b: "\<bar>of_int 0 :: rat\<bar>
      + (\<Sum>item\<leftarrow>items (runActions acts). \<bar>price item\<bar> * of_int (quantity item)) < 2 ^ 53"
    using h by simp
  show "getSubtotal (runActions acts)
         = Fin (\<Sum>item\<leftarrow>items (runActions acts). price item * of_int (quantity item))"
    using subtotal_fold_whole[OF q b] by (simp add: getSubtotal_def)
qed

text \<open>C1 (amended) at a cart of two items priced 100 and 250.\<close>

theorem C1_subtotal_of_whole_prices_witness:
  "price paneerTikka = of_int \<lfloor>price paneerTikka\<rfloor>
   \<and> price dalMakhani = of_int \<lfloor>price dalMakhani\<rfloor>
   \<and> map (\<lambda>item. \<bar>price item\<bar> * of_int (quantity item))
        (items (runActions [HandleAddItem paneerTikka, HandleAddItem paneerTikka,
                            HandleAddItem dalMakhani])) = [200, 250]
   \<and> (200 + 250 :: rat) < 2 ^ 53
   \<and> getSubtotal (runActions [HandleAddItem paneerTikka, HandleAddItem paneerTikka,
                              HandleAddItem dalMakhani]) = Fin 450"
proof -
  let ?st = "runActions [HandleAddItem paneerTikka, HandleAddItem paneerTikka,
                         HandleAddItem dalMakhani]"
  have st: "items ?st = [(cartItemOf paneerTikka)\<lparr>quantity := 2\<rparr>, cartItemOf dalMakhani]"
    by (simp add: runActions_def initialOrderStore_def handleAddItem_def addItem_def
        updateQuantity_def cartItemOf_def paneerTikka_def dalMakhani_def)
  have w1: "price paneerTikka = of_int \<lfloor>price paneerTikka\<rfloor>" by (simp add: paneerTikka_def)
  have w2: "price dalMakhani = of_int \<lfloor>price dalMakhani\<rfloor>" by (simp add: dalMakhani_def)
  have a: "map (\<lambda>item. \<bar>price item\<bar> * of_int (quantity item)) (items ?st) = [200, 250]"
    unfolding st by (simp add: cartItemOf_def paneerTikka_def dalMakhani_def)
  have e: "map (\<lambda>item. price item * of_int (quantity item)) (items ?st) = [200, 250]"
    unfolding st by (simp add: cartItemOf_def paneerTikka_def dalMakhani_def)
  have w: "\<forall>item\<in>set (items ?st). price item = of_int \<lfloor>price item\<rfloor>"
    unfolding st using w1 w2 by (simp add: cartItemOf_def)
  have b: "(\<Sum>item\<leftarrow>items ?st. \<bar>price item\<bar> * of_int (quantity item)) < 2 ^ 53"
    unfolding a by simp
  note th = C1_subtotal_of_whole_prices[of "[HandleAddItem paneerTikka, HandleAddItem paneerTikka,
      HandleAddItem dalMakhani]"]
  from th w b have "getSubtotal ?st = Fin (\<Sum>item\<leftarrow>items ?st. price item * of_int (quantity item))"
    by blast
  then have g: "getSubtotal ?st = Fin 450" unfolding e by simp
  have lt: "(200 + 250 :: rat) < 2 ^ 53" by simp
  from w1 w2 a lt g show ?thesis by blast
qed

section \<open>Theorems: toFixed(2) read back by parseFloat\<close>

lemma below_ten: "d < 10 \<Longrightarrow> d \<in> {0, 1, 2, 3, 4, 5, 6, 7, 8, 9::nat}"
  by auto

lemma isDigit_digitChar: "d < 10 \<Longrightarrow> isDigit (digitChar d)"
  by (drule below_ten) (auto simp: isDigit_def digitChar_def)

lemma digitVal_digitChar: "d < 10 \<Longrightarrow> digitVal (digitChar d) = d"
  by (drule below_ten) (auto simp: digitVal_def digitChar_def)

lemma isDigit_head:
  "isDigit c \<Longrightarrow> \<not> isWhiteSpace c \<and> c \<noteq> CHR ''+'' \<and> c \<noteq> CHR ''-'' \<and> c \<noteq> CHR ''I'' \<and> c \<noteq> CHR ''.''"
  by (auto simp: isDigit_def isWhiteSpace_def)

lemma digitsOf_nonempty: "digitsOf n \<noteq> []"
  by (subst digitsOf.simps) simp

lemma digitsOf_digits: "c \<in> set (digitsOf n) \<Longrightarrow> isDigit c"
proof (induction n arbitrary: c rule: digitsOf.induct)
  case (1 n)
  show ?case
  proof (cases "n < 10")
    case True
    with "1.prems" show ?thesis
      by (subst (asm) digitsOf.simps) (simp add: isDigit_digitChar)
  next
    case False
    with "1.prems" "1.IH" show ?thesis
      by (subst (asm) digitsOf.simps) (auto simp: isDigit_digitChar)
  qed
qed

lemma digitsVal_snoc: "digitsVal (xs @ [c]) = 10 * digitsVal xs + digitVal c"
  by (simp add: digitsVal_def)

lemma digitsVal_digitsOf: "digitsVal (digitsOf n) = n"
proof (induction n rule: digitsOf.induct)
  case (1 n)
  show ?case
  proof (cases "n < 10")
    case True
    then show ?thesis
      by (subst digitsOf.simps) (simp add: digitsVal_def digitVal_digitChar)
  next
    case False
    with "1.IH" show ?thesis
      by (subst digitsOf.simps) (simp add: digitsVal_snoc digitVal_digitChar)
  qed
qed

lemma digitsVal_append: "digitsVal (xs @ ys) = digitsVal xs * 10 ^ length ys + digitsVal ys"
proof (induction ys rule: rev_induct)
  case Nil
  show ?case by (simp add: digitsVal_def)
next
  case (snoc y ys)
  have "digitsVal (xs @ ys @ [y]) = 10 * digitsVal (xs @ ys) + digitVal y"
    using digitsVal_snoc[of "xs @ ys" y] by simp
  then show ?case using snoc by (simp add: digitsVal_snoc algebra_simps)
qed

lemma digitsVal_zeros: "digitsVal (replicate k (CHR ''0'')) = 0"
  by (induction k) (simp_all add: digitsVal_def digitVal_def)

lemma digitsVal_padded: "digitsVal (replicate k (CHR ''0'') @ xs) = digitsVal xs"
  by (simp add: digitsVal_append digitsVal_zeros)

lemma takeWhile_digits_point:
  "(\<forall>c\<in>set a. isDigit c) \<Longrightarrow> takeWhile isDigit (a @ CHR ''.'' # b) = a"
  by (induction a) (simp_all add: isDigit_def)

lemma dropWhile_digits_point:
  "(\<forall>c\<in>set a. isDigit c) \<Longrightarrow> dropWhile isDigit (a @ CHR ''.'' # b) = CHR ''.'' # b"
  by (induction a) (simp_all add: isDigit_def)

lemma takeWhile_all_digits: "(\<forall>c\<in>set b. isDigit c) \<Longrightarrow> takeWhile isDigit b = b"
  by (induction b) simp_all

lemma dropWhile_all_digits: "(\<forall>c\<in>set b. isDigit c) \<Longrightarrow> dropWhile isDigit b = []"
  by (induction b) simp_all

text \<open>The shape of what toFixed(2) prints for a non-negative value.\<close>

lemma fixedDigits_2_shape:
  "\<exists>c a b. fixedDigits 2 x = (c # a) @ CHR ''.'' # b \<and> (\<forall>d\<in>set (c # a). isDigit d)
      \<and> (\<forall>d\<in>set b. isDigit d) \<and> length b = 2
      \<and> digitsVal (c # a) * 100 + digitsVal b = nat \<lfloor>x * 100 + 1 / 2\<rfloor>"
proof -
  define n where "n = nat \<lfloor>x * 100 + 1 / 2\<rfloor>"
  define m where "m = digitsOf n"
  define m' where "m' = (if length m \<le> 2 then replicate (3 - length m) (CHR ''0'') @ m else m)"
  have dig: "\<forall>d\<in>set m'. isDigit d"
    using digitsOf_digits[of _ n] by (auto simp: m'_def m_def isDigit_def)
  have len: "3 \<le> length m'" by (auto simp: m'_def)
  have val: "digitsVal m' = n"
    by (simp add: m'_def m_def digitsVal_padded digitsVal_digitsOf)
  define a0 where "a0 = take (length m' - 2) m'"
  define b where "b = drop (length m' - 2) m'"
  have ab: "a0 @ b = m'" by (simp add: a0_def b_def)
  have lb: "length b = 2" using len by (simp add: b_def)
  have "a0 \<noteq> []" using len by (auto simp: a0_def)
  then obtain c a where ca: "a0 = c # a" by (cases a0) auto
  have da: "\<forall>d\<in>set (c # a). isDigit d" using dig ab ca by (metis Un_iff set_append)
  have db: "\<forall>d\<in>set b. isDigit d" using dig ab by (metis Un_iff set_append)
  have v: "digitsVal (c # a) * 100 + digitsVal b = n"
    using digitsVal_append[of a0 b] ab lb val ca by simp
  have "fixedDigits 2 x = take (length m' - 2) m' @ CHR ''.'' # drop (length m' - 2) m'"
    by (simp add: fixedDigits_def Let_def n_def m_def m'_def)
  then have f: "fixedDigits 2 x = (c # a) @ CHR ''.'' # b"
    unfolding a0_def[symmetric] b_def[symmetric] ca by simp
  from f da db lb v show ?thesis unfolding n_def by blast
qed

lemma strUnsigned_fixedDigits_2:
  assumes "0 \<le> x"
  shows "strUnsignedDecimalLiteral (fixedDigits 2 x) = Fin (of_int \<lfloor>x * 100 + 1 / 2\<rfloor> / 100)"
    and "strDecimalLiteral (fixedDigits 2 x) = Fin (of_int \<lfloor>x * 100 + 1 / 2\<rfloor> / 100)"
    and "fixedDigits 2 x \<noteq> []"
proof -
  obtain c a b where s: "fixedDigits 2 x = (c # a) @ CHR ''.'' # b"
    and da: "\<forall>d\<in>set (c # a). isDigit d" and db: "\<forall>d\<in>set b. isDigit d"
    and lb: "length b = 2"
    and v: "digitsVal (c # a) * 100 + digitsVal b = nat \<lfloor>x * 100 + 1 / 2\<rfloor>"
    using fixedDigits_2_shape by blast
  have c: "isDigit c" using da by simp
  note hd = isDigit_head[OF c]
  have inf: "take 8 ((c # a) @ CHR ''.'' # b) \<noteq> ''Infinity''" using hd by simp
  have tw: "takeWhile isDigit ((c # a) @ CHR ''.'' # b) = c # a"
    using da by (rule takeWhile_digits_point)
  have dw: "dropWhile isDigit ((c # a) @ CHR ''.'' # b) = CHR ''.'' # b"
    using da by (rule dropWhile_digits_point)
  have nonneg: "0 \<le> \<lfloor>x * 100 + 1 / 2\<rfloor>" using assms by simp
  have "(of_nat (digitsVal (c # a)) :: rat) + of_nat (digitsVal b) / 100
      = of_nat (digitsVal (c # a) * 100 + digitsVal b) / 100"
    by (simp add: field_simps)
  also have "\<dots> = of_int \<lfloor>x * 100 + 1 / 2\<rfloor> / 100"
    using nonneg by (simp add: v)
  finally have val: "(of_nat (digitsVal (c # a)) :: rat) + of_nat (digitsVal b) / 100
      = of_int \<lfloor>x * 100 + 1 / 2\<rfloor> / 100" .
  show u: "strUnsignedDecimalLiteral (fixedDigits 2 x) = Fin (of_int \<lfloor>x * 100 + 1 / 2\<rfloor> / 100)"
    unfolding s strUnsignedDecimalLiteral_def Let_def tw dw
    using inf val
    by (simp add: takeWhile_all_digits[OF db] dropWhile_all_digits[OF db] lb
        exponentPart_def scale10_def)
  show "strDecimalLiteral (fixedDigits 2 x) = Fin (of_int \<lfloor>x * 100 + 1 / 2\<rfloor> / 100)"
    using hd u unfolding strDecimalLiteral_def s by simp
  show "fixedDigits 2 x \<noteq> []" unfolding s by simp
qed

lemma toFixed_2_roundtrip:
  "\<exists>fixed. toFixed 2 (Fin q) = Inr fixed \<and> fixed \<noteq> []
      \<and> parseFloatStr fixed = roundDouble (round2 q)"
proof (cases "q < 0")
  case True
  then have p: "0 \<le> - q" by simp
  have "strDecimalLiteral (CHR ''-'' # fixedDigits 2 (- q)) = Fin (round2 q)"
    using True strUnsigned_fixedDigits_2(1)[OF p]
    by (simp add: strDecimalLiteral_def isWhiteSpace_def js_neg_def round2_def)
  then have "parseFloatStr (CHR ''-'' # fixedDigits 2 (- q)) = roundDouble (round2 q)"
    by (simp add: parseFloatStr_def toDouble_def)
  with True show ?thesis by (simp add: toFixed_def)
next
  case False
  then have p: "0 \<le> q" by simp
  have "strDecimalLiteral (fixedDigits 2 q) = Fin (round2 q)"
    using False strUnsigned_fixedDigits_2(2)[OF p] by (simp add: round2_def)
  then have "parseFloatStr (fixedDigits 2 q) = roundDouble (round2 q)"
    by (simp add: parseFloatStr_def toDouble_def)
  with False strUnsigned_fixedDigits_2(3)[OF p] show ?thesis by (simp add: toFixed_def)
qed

section \<open>Theorems: rounding in the running total\<close>

lemma mergeTables_finite:
  assumes "js_add (amountOf e) (amountOf r) = Fin s"
  shows "\<exists>merged fixed. mergeTables e r = Inr merged \<and> toFixed 2 (Fin s) = Inr fixed
           \<and> total_amount merged = Str fixed \<and> amountOf merged = roundDouble (round2 s)"
proof -
  obtain fixed where f: "toFixed 2 (Fin s) = Inr fixed" "fixed \<noteq> []"
      "parseFloatStr fixed = roundDouble (round2 s)"
    using toFixed_2_roundtrip by blast
  let ?m = "e\<lparr>total_amount := Str fixed,
              status := (if status r = running then running else status e),
              current_order_id := orNumber (current_order_id e) (current_order_id r),
              order_number := orString (order_number e) (order_number r)\<rparr>"
  have m: "mergeTables e r = Inr ?m"
    using assms f(1) by (simp add: mergeTables_def amountOf_def del: js_add.simps)
  have a: "amountOf ?m = roundDouble (round2 s)"
    using f(2,3) by (simp add: amountOf_def orZero_def parseFloat_def)
  from m f(1) a show ?thesis by auto
qed

lemma exactSteps_subtotal:
  "exactSteps acc xs \<Longrightarrow>
   foldl (\<lambda>sum item. js_add sum (js_mul (Fin (price item)) (Fin (of_int (quantity item)))))
     (Fin acc) xs
   = Fin (acc + (\<Sum>item\<leftarrow>xs. price item * of_int (quantity item)))"
  by (induction xs arbitrary: acc) (simp_all add: add.assoc del: js_add.simps js_mul.simps)

lemma literal_10_002: "strDecimalLiteral ''10.002'' = Fin (5001 / 500)"
  by code_simp

lemma literal_20_00: "strDecimalLiteral ''20.00'' = Fin 20"
  by code_simp

lemma parse_10_002:
  "parseFloat (orZero (Str ''10.002'')) = Fin (5630625434119963 / 562949953421312)"
  by (simp add: eval_parse literal_10_002) (simp add: eval_double)

lemma parse_20_00: "parseFloat (orZero (Str ''20.00'')) = Fin 20"
  by (simp add: eval_parse literal_20_00) (simp add: eval_double)

lemma add_10_002_twice:
  "js_add (Fin (5630625434119963 / 562949953421312)) (Fin (5630625434119963 / 562949953421312))
     = Fin (5630625434119963 / 281474976710656)"
  by (simp add: eval_double)

lemma add_20_10_002:
  "js_add (Fin 20) (Fin (5630625434119963 / 562949953421312))
     = Fin (4222406125636551 / 140737488355328)"
  by (simp add: eval_double)

lemma add_20_004_10_002:
  "js_add (Fin (5630625434119963 / 281474976710656)) (Fin (5630625434119963 / 562949953421312))
     = Fin (1055742268897493 / 35184372088832)"
  by (simp add: eval_double)

lemma fixed_20_004: "toFixed 2 (Fin (5630625434119963 / 281474976710656)) = Inr ''20.00''"
  by (simp add: eval_fixed)

lemma fixed_30_002: "toFixed 2 (Fin (4222406125636551 / 140737488355328)) = Inr ''30.00''"
  by (simp add: eval_fixed)

lemma fixed_30_006: "toFixed 2 (Fin (1055742268897493 / 35184372088832)) = Inr ''30.01''"
  by (simp add: eval_fixed)

text \<open>
  C6, the claim as stated fails: three rows of one table with amount 10.002 each. Every
  merge stores the running total through toFixed(2), so the total goes 20.004 to "20.00",
  then 30.002 to "30.00"; the sum of the three amounts, rounded once for display, is
  "30.01".
\<close>

theorem C6_intermediate_rounding_counterexample:
  "aggregate [row 7 ''5'' ''A'' running (Some 31) (Str ''10.002''),
              row 7 ''5'' ''A'' running (Some 32) (Str ''10.002''),
              row 7 ''5'' ''A'' running (Some 33) (Str ''10.002'')]
     = Inr [row 7 ''5'' ''A'' running (Some 31) (Str ''30.00'')]
   \<and> toFixed 2 (js_add (js_add (amountOf (row 7 ''5'' ''A'' running (Some 31) (Str ''10.002'')))
                                (amountOf (row 7 ''5'' ''A'' running (Some 32) (Str ''10.002''))))
                        (amountOf (row 7 ''5'' ''A'' running (Some 33) (Str ''10.002''))))
       = Inr ''30.01''"
proof -
  have a: "aggregate [row 7 ''5'' ''A'' running (Some 31) (Str ''10.002''),
              row 7 ''5'' ''A'' running (Some 32) (Str ''10.002''),
              row 7 ''5'' ''A'' running (Some 33) (Str ''10.002'')]
     = Inr [row 7 ''5'' ''A'' running (Some 31) (Str ''30.00'')]"
    by (simp add: eval_aggregate parse_10_002 parse_20_00 add_10_002_twice add_20_10_002
        fixed_20_004 fixed_30_002 del: js_add.simps)
  have c: "toFixed 2 (js_add (js_add (amountOf (row 7 ''5'' ''A'' running (Some 31) (Str ''10.002'')))
                                (amountOf (row 7 ''5'' ''A'' running (Some 32) (Str ''10.002''))))
                        (amountOf (row 7 ''5'' ''A'' running (Some 33) (Str ''10.002''))))
       = Inr ''30.01''"
    by (simp add: amountOf_def row_def parse_10_002 add_10_002_twice add_20_004_10_002
        fixed_30_006 del: js_add.simps)
  from a c show ?thesis by blast
qed

text \<open>
  C6 (amended). The table aggregator rounds to two decimals at every merge: a merge whose
  sum is finite stores the toFixed(2) text of the sum, and the amount the next merge
  reads back from that text is the double nearest to the sum rounded to a multiple of
  1/100. The cart totals are never rounded to two decimals: whenever every product and
  every partial sum is a double as it stands, getSubtotal is exactly the sum of unit
  price times quantity, and getTax and getTotal are one multiplication by the double
  0.05 and one addition on it.
\<close>

theorem C6_rounding_of_totals:
  "(aggregateOf pre (table_id r) = Some e \<and> js_add (amountOf e) (amountOf r) = Fin s \<longrightarrow>
      (\<exists>merged fixed.
          aggregateOf (pre @ [r]) (table_id r) = Some merged
        \<and> toFixed 2 (Fin s) = Inr fixed
        \<and> total_amount merged = Str fixed
        \<and> amountOf merged = roundDouble (round2 s)))
   \<and> (exactSteps 0 (items state) \<longrightarrow>
        getSubtotal state = Fin (\<Sum>item\<leftarrow>items state. price item * of_int (quantity item)))
   \<and> getTax state = js_mul (getSubtotal state) (roundDouble (5 / 100))
   \<and> getTotal state = js_add (getSubtotal state) (getTax state)"
proof -
  have m: "\<exists>merged fixed.
          aggregateOf (pre @ [r]) (table_id r) = Some merged
        \<and> toFixed 2 (Fin s) = Inr fixed
        \<and> total_amount merged = Str fixed
        \<and> amountOf merged = roundDouble (round2 s)"
    if h: "aggregateOf pre (table_id r) = Some e \<and> js_add (amountOf e) (amountOf r) = Fin s"
  proof -
    from h have e: "aggregateOf pre (table_id r) = Some e"
      and s: "js_add (amountOf e) (amountOf r) = Fin s" by simp_all
    obtain merged fixed where "mergeTables e r = Inr merged" "toFixed 2 (Fin s) = Inr fixed"
      "total_amount merged = Str fixed" "amountOf merged = roundDouble (round2 s)"
      using mergeTables_finite[OF s] by blast
    then show ?thesis using e by (auto simp: aggregateOf_snoc)
  qed
  have g: "getSubtotal state = Fin (\<Sum>item\<leftarrow>items state. price item * of_int (quantity item))"
    if "exactSteps 0 (items state)"
    using exactSteps_subtotal[OF that] by (simp add: getSubtotal_def)
  have t: "getTax state = js_mul (getSubtotal state) (roundDouble (5 / 100))"
    by (simp add: getTax_def)
  have u: "getTotal state = js_add (getSubtotal state) (getTax state)"
    by (simp add: getTotal_def)
  from m g t u show ?thesis by blast
qed

text \<open>
  C6 (amended) at two rows of 10.002, whose total reads back as 20, and at a cart of
  three times an item priced 12.125, whose subtotal is 36.375.
\<close>

theorem C6_rounding_of_totals_witness:
  "aggregateOf [row 7 ''5'' ''A'' running (Some 31) (Str ''10.002'')] 7
      = Some (row 7 ''5'' ''A'' running (Some 31) (Str ''10.002''))
   \<and> js_add (amountOf (row 7 ''5'' ''A'' running (Some 31) (Str ''10.002'')))
             (amountOf (row 7 ''5'' ''A'' running (Some 32) (Str ''10.002'')))
      = Fin (5630625434119963 / 281474976710656)
   \<and> roundDouble (round2 (5630625434119963 / 281474976710656)) = Fin 20
   \<and> map_option amountOf
        (aggregateOf ([row 7 ''5'' ''A'' running (Some 31) (Str ''10.002'')]
                       @ [row 7 ''5'' ''A'' running (Some 32) (Str ''10.002'')]) 7)
      = Some (Fin 20)
   \<and> exactSteps 0 (items (runActions [HandleAddItem jeeraRice, HandleAddItem jeeraRice,
                                       HandleAddItem jeeraRice]))
   \<and> getSubtotal (runActions [HandleAddItem jeeraRice, HandleAddItem jeeraRice,
                              HandleAddItem jeeraRice]) = Fin (291 / 8)"
proof -
  let ?e = "row 7 ''5'' ''A'' running (Some 31) (Str ''10.002'')"
  let ?r = "row 7 ''5'' ''A'' running (Some 32) (Str ''10.002'')"
  let ?st = "runActions [HandleAddItem jeeraRice, HandleAddItem jeeraRice, HandleAddItem jeeraRice]"
  have i: "table_id ?r = 7" by (simp add: row_def)
  have e: "aggregateOf [?e] 7 = Some ?e"
    by (simp add: aggregateOf_def aggregatedMap_def aggregateRow_def row_def)
  have s: "js_add (amountOf ?e) (amountOf ?r) = Fin (5630625434119963 / 281474976710656)"
    by (simp add: amountOf_def row_def parse_10_002 add_10_002_twice del: js_add.simps)
  have rd: "roundDouble (round2 (5630625434119963 / 281474976710656)) = Fin 20"
    by (simp add: round2_def floor_divide_numeral_rat) (simp add: eval_double)
  have st: "items ?st = [(cartItemOf jeeraRice)\<lparr>quantity := 3\<rparr>]"
    by (simp add: runActions_def initialOrderStore_def handleAddItem_def addItem_def
        updateQuantity_def cartItemOf_def)
  have mu: "js_mul (Fin (97 / 8)) (Fin 3) = Fin (291 / 8)" by (simp add: eval_double)
  have x: "exactSteps 0 (items ?st)"
    unfolding st by (simp add: cartItemOf_def jeeraRice_def mu del: js_mul.simps)
  have su: "(\<Sum>item\<leftarrow>items ?st. price item * of_int (quantity item)) = 291 / 8"
    unfolding st by (simp add: cartItemOf_def jeeraRice_def)
  note th = C6_rounding_of_totals[of "[?e]" ?r ?e "5630625434119963 / 281474976710656" ?st]
  from th e s have "\<exists>merged. aggregateOf ([?e] @ [?r]) 7 = Some merged
      \<and> amountOf merged = roundDouble (round2 (5630625434119963 / 281474976710656))"
    unfolding i by blast
  then have v: "map_option amountOf (aggregateOf ([?e] @ [?r]) 7) = Some (Fin 20)"
    unfolding rd by auto
  from th x have "getSubtotal ?st = Fin (\<Sum>item\<leftarrow>items ?st. price item * of_int (quantity item))"
    by blast
  then have g: "getSubtotal ?st = Fin (291 / 8)" unfolding su .
  from e s rd v x g show ?thesis by blast
qed

section \<open>Theorems: order of the rows\<close>

lemma mergeTables_fields:
  assumes "mergeTables e r = Inr merged"
  shows "table_id merged = table_id e \<and> table_number merged = table_number e
         \<and> table_block merged = table_block e \<and> seating_capacity merged = seating_capacity e
         \<and> status merged = (if status r = running then running else status e)"
  using assms by (auto simp: mergeTables_def Let_def split: sum.splits)

lemma round2_near:
  assumes "\<bar>z - of_int c / 100\<bar> \<le> 3 / 2 ^ 10"
  shows "round2 z = of_int c / 100"
proof -
  have "\<bar>z * 100 - of_int c\<bar> = \<bar>z - of_int c / 100\<bar> * 100" by (simp add: abs_if field_simps)
  with assms have n: "\<bar>z * 100 - of_int c\<bar> \<le> 300 / 1024" by simp
  show ?thesis
  proof (cases "z < 0")
    case False
    have "of_int c \<le> z * 100 + 1 / 2" "z * 100 + 1 / 2 < of_int c + 1" using n by linarith+
    then have "\<lfloor>z * 100 + 1 / 2\<rfloor> = c" by (rule floor_unique)
    with False show ?thesis by (simp add: round2_def)
  next
    case True
    from n have a: "- (of_int c :: rat) \<le> - z * 100 + 1 / 2"
      and b: "- z * 100 + 1 / 2 < - (of_int c :: rat) + 1" by linarith+
    have "\<lfloor>- z * 100 + 1 / 2\<rfloor> = - c"
    proof (rule floor_unique)
      show "of_int (- c) \<le> - z * 100 + 1 / 2" using a by simp
      show "- z * 100 + 1 / 2 < of_int (- c) + 1" using b by simp
    qed
    with True show ?thesis by (simp add: round2_def)
  qed
qed

lemma merge_cents:
  assumes e: "amountOf e = roundDouble (of_int K / 100)"
    and r: "amountOf r = roundDouble (of_int k / 100)"
    and b: "\<bar>K\<bar> + \<bar>k\<bar> \<le> 100 * 2 ^ 43"
  shows "\<exists>merged. mergeTables e r = Inr merged
           \<and> amountOf merged = roundDouble (of_int (K + k) / 100)"
proof -
  have "(of_int (\<bar>K\<bar> + \<bar>k\<bar>) :: rat) \<le> of_int (100 * 2 ^ 43)" using b by (simp only: of_int_le_iff)
  then have br: "\<bar>of_int K :: rat\<bar> + \<bar>of_int k\<bar> \<le> 100 * 2 ^ 43" by simp
  have bK: "\<bar>of_int K / 100 :: rat\<bar> < 2 ^ 44" using br by simp
  have bk: "\<bar>of_int k / 100 :: rat\<bar> < 2 ^ 44" using br by simp
  obtain x where x: "roundDouble (of_int K / 100) = Fin x" "\<bar>x - of_int K / 100\<bar> \<le> 1 / 2 ^ 10"
    using roundDouble_error[OF bK] by blast
  obtain y where y: "roundDouble (of_int k / 100) = Fin y" "\<bar>y - of_int k / 100\<bar> \<le> 1 / 2 ^ 10"
    using roundDouble_error[OF bk] by blast
  have xy: "\<bar>(x + y) - of_int (K + k) / 100\<bar> \<le> 2 / 2 ^ 10"
  proof -
    have "(x + y) - of_int (K + k) / 100 = (x - of_int K / 100) + (y - of_int k / 100)"
      by (simp add: field_simps)
    then have "\<bar>(x + y) - of_int (K + k) / 100\<bar> \<le> \<bar>x - of_int K / 100\<bar> + \<bar>y - of_int k / 100\<bar>"
      by (simp only: abs_triangle_ineq)
    with x(2) y(2) show ?thesis by simp
  qed
  have sb: "\<bar>x + y\<bar> < 2 ^ 44"
  proof -
    define t where "t = (of_int (K + k) :: rat) / 100"
    have "\<bar>of_int (K + k) :: rat\<bar> \<le> \<bar>of_int K\<bar> + \<bar>of_int k\<bar>" by (simp add: abs_triangle_ineq)
    with br have "\<bar>of_int (K + k) :: rat\<bar> \<le> 100 * 2 ^ 43" by linarith
    then have t1: "\<bar>t\<bar> \<le> 2 ^ 43" by (simp add: t_def)
    have "\<bar>x + y\<bar> \<le> \<bar>(x + y) - t\<bar> + \<bar>t\<bar>" by linarith
    moreover have "\<bar>(x + y) - t\<bar> \<le> 2 / 2 ^ 10" using xy by (simp add: t_def)
    ultimately have "\<bar>x + y\<bar> \<le> 2 / 2 ^ 10 + 2 ^ 43" using t1 by linarith
    moreover have "(2 :: rat) / 2 ^ 10 + 2 ^ 43 < 2 ^ 44" by simp
    ultimately show ?thesis by linarith
  qed
  obtain z where z: "js_add (Fin x) (Fin y) = Fin z" "\<bar>z - of_int (K + k) / 100\<bar> \<le> 3 / 2 ^ 10"
  proof (cases "x = 0 \<or> y = 0")
    case True
    then have "js_add (Fin x) (Fin y) = Fin (x + y)" by auto
    moreover have "\<bar>(x + y) - of_int (K + k) / 100\<bar> \<le> 3 / 2 ^ 10" using xy by simp
    ultimately show ?thesis using that by blast
  next
    case False
    obtain d where d: "roundDouble (x + y) = Fin d" "\<bar>d - (x + y)\<bar> \<le> 1 / 2 ^ 10"
      using roundDouble_error[OF sb] by blast
    have "d - of_int (K + k) / 100 = (d - (x + y)) + ((x + y) - of_int (K + k) / 100)" by simp
    then have "\<bar>d - of_int (K + k) / 100\<bar>
        \<le> \<bar>d - (x + y)\<bar> + \<bar>(x + y) - of_int (K + k) / 100\<bar>"
      by (simp only: abs_triangle_ineq)
    with d(2) xy have "\<bar>d - of_int (K + k) / 100\<bar> \<le> 3 / 2 ^ 10" by simp
    moreover have "js_add (Fin x) (Fin y) = Fin d" using False d(1) by simp
    ultimately show ?thesis using that by blast
  qed
  have s: "js_add (amountOf e) (amountOf r) = Fin z" unfolding e r x(1) y(1) by (rule z(1))
  obtain merged where m: "mergeTables e r = Inr merged"
    and am: "amountOf merged = roundDouble (round2 z)"
    using mergeTables_finite[OF s] by blast
  have "round2 z = of_int (K + k) / 100" using z(2) by (rule round2_near)
  with m am show ?thesis by auto
qed

lemma abs_sum_filter_le:
  fixes f :: "'a \<Rightarrow> int"
  shows "\<bar>\<Sum>r\<leftarrow>filter P xs. f r\<bar> \<le> (\<Sum>r\<leftarrow>xs. \<bar>f r\<bar>)"
  by (induction xs) auto

lemma aggregateOf_cents:
  assumes "\<forall>r\<in>set rows. twoDecimal (amountOf r)"
    and "(\<Sum>r\<leftarrow>rows. \<bar>centsOf (amountOf r)\<bar>) \<le> 100 * 2 ^ 43"
  shows "case aggregateOf rows tid of
           None \<Rightarrow> tid \<notin> table_id ` set rows
         | Some a \<Rightarrow> amountOf a
             = roundDouble (of_int (\<Sum>r\<leftarrow>filter (\<lambda>r. table_id r = tid) rows.
                                       centsOf (amountOf r)) / 100)"
  using assms
proof (induction rows rule: rev_induct)
  case Nil
  show ?case by (simp add: aggregateOf_Nil)
next
  case (snoc r rows)
  have nn: "0 \<le> \<bar>centsOf (amountOf r)\<bar>" by simp
  from snoc.prems have hr: "twoDecimal (amountOf r)"
    and hs: "\<forall>r\<in>set rows. twoDecimal (amountOf r)"
    and bd: "(\<Sum>r\<leftarrow>rows. \<bar>centsOf (amountOf r)\<bar>) + \<bar>centsOf (amountOf r)\<bar> \<le> 100 * 2 ^ 43"
    by simp_all
  from bd nn have bd': "(\<Sum>r\<leftarrow>rows. \<bar>centsOf (amountOf r)\<bar>) \<le> 100 * 2 ^ 43" by linarith
  note ih = snoc.IH[OF hs bd']
  from hr have ar: "amountOf r = roundDouble (of_int (centsOf (amountOf r)) / 100)"
    by (simp add: twoDecimal_def)
  show ?case
  proof (cases "tid = table_id r")
    case False
    with ih show ?thesis by (auto simp: aggregateOf_snoc split: option.splits)
  next
    case True
    show ?thesis
    proof (cases "aggregateOf rows tid")
      case None
      with ih have "tid \<notin> table_id ` set rows" by simp
      then have "filter (\<lambda>r. table_id r = tid) rows = []" by (auto simp: filter_empty_conv)
      with None True ar show ?thesis by (simp add: aggregateOf_snoc)
    next
      case (Some e)
      define K where "K = (\<Sum>r\<leftarrow>filter (\<lambda>r. table_id r = tid) rows. centsOf (amountOf r))"
      from ih Some have ae: "amountOf e = roundDouble (of_int K / 100)" by (simp add: K_def)
      have "\<bar>K\<bar> \<le> (\<Sum>r\<leftarrow>rows. \<bar>centsOf (amountOf r)\<bar>)"
        unfolding K_def by (rule abs_sum_filter_le)
      with bd have b: "\<bar>K\<bar> + \<bar>centsOf (amountOf r)\<bar> \<le> 100 * 2 ^ 43" by linarith
      obtain merged where m: "mergeTables e r = Inr merged"
        and am: "amountOf merged = roundDouble (of_int (K + centsOf (amountOf r)) / 100)"
        using merge_cents[OF ae ar b] by blast
      have "(\<Sum>r\<leftarrow>filter (\<lambda>r. table_id r = tid) (rows @ [r]). centsOf (amountOf r))
          = K + centsOf (amountOf r)"
        using True by (simp add: K_def)
      with am m Some True show ?thesis by (simp add: aggregateOf_snoc)
    qed
  qed
qed

lemma sum_list_perm_int:
  fixes f :: "'a \<Rightarrow> int"
  assumes "mset xs = mset ys"
  shows "(\<Sum>r\<leftarrow>filter P xs. f r) = (\<Sum>r\<leftarrow>filter P ys. f r)"
    and "(\<Sum>r\<leftarrow>xs. f r) = (\<Sum>r\<leftarrow>ys. f r)"
proof -
  have "mset (map f (filter P xs)) = mset (map f (filter P ys))"
    using assms by (metis mset_filter mset_map)
  then show "(\<Sum>r\<leftarrow>filter P xs. f r) = (\<Sum>r\<leftarrow>filter P ys. f r)"
    by (metis sum_mset_sum_list)
  have "mset (map f xs) = mset (map f ys)" using assms by (metis mset_map)
  then show "(\<Sum>r\<leftarrow>xs. f r) = (\<Sum>r\<leftarrow>ys. f r)" by (metis sum_mset_sum_list)
qed

lemma aggregateOf_amount_perm:
  assumes p: "mset rows' = mset rows"
    and h: "\<forall>r\<in>set rows. twoDecimal (amountOf r)"
    and b: "(\<Sum>r\<leftarrow>rows. \<bar>centsOf (amountOf r)\<bar>) \<le> 100 * 2 ^ 43"
  shows "map_option amountOf (aggregateOf rows' tid) = map_option amountOf (aggregateOf rows tid)"
proof -
  have s: "set rows' = set rows" using p by (rule mset_eq_setD)
  then have h': "\<forall>r\<in>set rows'. twoDecimal (amountOf r)" using h by simp
  have b': "(\<Sum>r\<leftarrow>rows'. \<bar>centsOf (amountOf r)\<bar>) \<le> 100 * 2 ^ 43"
    using b sum_list_perm_int(2)[OF p, of "\<lambda>r. \<bar>centsOf (amountOf r)\<bar>"] by simp
  note A = aggregateOf_cents[OF h b, of tid] and A' = aggregateOf_cents[OF h' b', of tid]
  have e: "(\<Sum>r\<leftarrow>filter (\<lambda>r. table_id r = tid) rows'. centsOf (amountOf r))
      = (\<Sum>r\<leftarrow>filter (\<lambda>r. table_id r = tid) rows. centsOf (amountOf r))"
    using p by (rule sum_list_perm_int(1))
  show ?thesis
  proof (cases "tid \<in> table_id ` set rows")
    case False
    then have "aggregateOf rows tid = None" "aggregateOf rows' tid = None"
      using s by (simp_all add: aggregateOf_None_iff)
    then show ?thesis by simp
  next
    case True
    then obtain a where a: "aggregateOf rows tid = Some a"
      using aggregateOf_None_iff[of rows tid] by auto
    from True s obtain a' where a': "aggregateOf rows' tid = Some a'"
      using aggregateOf_None_iff[of rows' tid] by auto
    from A a A' a' e have "amountOf a' = amountOf a" by simp
    with a a' show ?thesis by simp
  qed
qed

lemma aggregateOf_first_row:
  assumes "aggregateOf rows tid = Some a"
  shows "\<exists>first rest. filter (\<lambda>r. table_id r = tid) rows = first # rest
           \<and> table_number a = table_number first \<and> table_block a = table_block first
           \<and> seating_capacity a = seating_capacity first
           \<and> (status a = status first \<or> status a = running)"
  using assms
proof (induction rows arbitrary: a rule: rev_induct)
  case Nil
  then show ?case by (simp add: aggregateOf_Nil)
next
  case (snoc r rows)
  show ?case
  proof (cases "tid = table_id r")
    case False
    with snoc.prems have "aggregateOf rows tid = Some a" by (simp add: aggregateOf_snoc)
    from snoc.IH[OF this] False show ?thesis by auto
  next
    case True
    show ?thesis
    proof (cases "aggregateOf rows tid")
      case None
      then have "tid \<notin> table_id ` set rows" by (simp add: aggregateOf_None_iff)
      then have "filter (\<lambda>r. table_id r = tid) rows = []" by (auto simp: filter_empty_conv)
      moreover have "a = r" using snoc.prems None True by (simp add: aggregateOf_snoc)
      ultimately show ?thesis using True by simp
    next
      case (Some e)
      from snoc.IH[OF Some] obtain first rest where
        f: "filter (\<lambda>r. table_id r = tid) rows = first # rest"
        and g: "table_number e = table_number first" "table_block e = table_block first"
          "seating_capacity e = seating_capacity first"
          "status e = status first \<or> status e = running"
        by blast
      from snoc.prems Some True have m: "mergeTables e r = Inr a"
        by (simp add: aggregateOf_snoc split: sum.splits)
      note mf = mergeTables_fields[OF m]
      have "filter (\<lambda>r. table_id r = tid) (rows @ [r]) = first # (rest @ [r])"
        using f True by simp
      moreover have "table_number a = table_number first \<and> table_block a = table_block first
           \<and> seating_capacity a = seating_capacity first
           \<and> (status a = status first \<or> status a = running)"
        using mf g by auto
      ultimately show ?thesis by blast
    qed
  qed
qed

lemma literal_10_004: "strDecimalLiteral ''10.004'' = Fin (2501 / 250)"
  by code_simp

lemma literal_10_006: "strDecimalLiteral ''10.006'' = Fin (5003 / 500)"
  by code_simp

lemma literal_20_01: "strDecimalLiteral ''20.01'' = Fin (2001 / 100)"
  by code_simp

lemma literal_430_50: "strDecimalLiteral ''430.50'' = Fin (861 / 2)"
  by code_simp

lemma parse_10_004:
  "parseFloat (orZero (Str ''10.004'')) = Fin (5631751334026805 / 562949953421312)"
  by (simp add: eval_parse literal_10_004) (simp add: eval_double)

lemma parse_10_006:
  "parseFloat (orZero (Str ''10.006'')) = Fin (352054827120853 / 35184372088832)"
  by (simp add: eval_parse literal_10_006) (simp add: eval_double)

lemma parse_20_01:
  "parseFloat (orZero (Str ''20.01'')) = Fin (5632314283980227 / 281474976710656)"
  by (simp add: eval_parse literal_20_01) (simp add: eval_double)

lemma parse_430_50: "parseFloat (orZero (Str ''430.50'')) = Fin (861 / 2)"
  by (simp add: eval_parse literal_430_50) (simp add: eval_double)

lemma add_10_004_twice:
  "js_add (Fin (5631751334026805 / 562949953421312)) (Fin (5631751334026805 / 562949953421312))
     = Fin (5631751334026805 / 281474976710656)"
  by (simp add: eval_double)

lemma add_20_01_10_006:
  "js_add (Fin (5632314283980227 / 281474976710656)) (Fin (352054827120853 / 35184372088832))
     = Fin (8448752900947051 / 281474976710656)"
  by (simp add: eval_double)

lemma add_10_006_10_004:
  "js_add (Fin (352054827120853 / 35184372088832)) (Fin (5631751334026805 / 562949953421312))
     = Fin (2816157141990113 / 140737488355328)"
  by (simp add: eval_double)

lemma add_20_01_10_004:
  "js_add (Fin (5632314283980227 / 281474976710656)) (Fin (5631751334026805 / 562949953421312))
     = Fin (4224094975496815 / 140737488355328)"
  by (simp add: eval_double)

lemma fixed_20_008: "toFixed 2 (Fin (5631751334026805 / 281474976710656)) = Inr ''20.01''"
  by (simp add: eval_fixed)

lemma fixed_20_010: "toFixed 2 (Fin (2816157141990113 / 140737488355328)) = Inr ''20.01''"
  by (simp add: eval_fixed)

lemma fixed_30_016: "toFixed 2 (Fin (8448752900947051 / 281474976710656)) = Inr ''30.02''"
  by (simp add: eval_fixed)

lemma fixed_30_014: "toFixed 2 (Fin (4224094975496815 / 140737488355328)) = Inr ''30.01''"
  by (simp add: eval_fixed)

text \<open>
  C9, the claim as stated fails: the rows 10.004, 10.004, 10.006 of one table give the total
  "30.02" in that order and "30.01" with the last row first, because each merge rounds.
\<close>

theorem C9_order_dependent_total_counterexample:
  "mset [row 7 ''5'' ''A'' running (Some 31) (Str ''10.004''),
         row 7 ''5'' ''A'' running (Some 31) (Str ''10.004''),
         row 7 ''5'' ''A'' running (Some 31) (Str ''10.006'')]
     = mset [row 7 ''5'' ''A'' running (Some 31) (Str ''10.006''),
             row 7 ''5'' ''A'' running (Some 31) (Str ''10.004''),
             row 7 ''5'' ''A'' running (Some 31) (Str ''10.004'')]
   \<and> aggregate [row 7 ''5'' ''A'' running (Some 31) (Str ''10.004''),
                row 7 ''5'' ''A'' running (Some 31) (Str ''10.004''),
                row 7 ''5'' ''A'' running (Some 31) (Str ''10.006'')]
       = Inr [row 7 ''5'' ''A'' running (Some 31) (Str ''30.02'')]
   \<and> aggregate [row 7 ''5'' ''A'' running (Some 31) (Str ''10.006''),
                row 7 ''5'' ''A'' running (Some 31) (Str ''10.004''),
                row 7 ''5'' ''A'' running (Some 31) (Str ''10.004'')]
       = Inr [row 7 ''5'' ''A'' running (Some 31) (Str ''30.01'')]"
proof -
  have a: "mset [row 7 ''5'' ''A'' running (Some 31) (Str ''10.004''),
         row 7 ''5'' ''A'' running (Some 31) (Str ''10.004''),
         row 7 ''5'' ''A'' running (Some 31) (Str ''10.006'')]
     = mset [row 7 ''5'' ''A'' running (Some 31) (Str ''10.006''),
             row 7 ''5'' ''A'' running (Some 31) (Str ''10.004''),
             row 7 ''5'' ''A'' running (Some 31) (Str ''10.004'')]"
    by simp
  have b: "aggregate [row 7 ''5'' ''A'' running (Some 31) (Str ''10.004''),
                row 7 ''5'' ''A'' running (Some 31) (Str ''10.004''),
                row 7 ''5'' ''A'' running (Some 31) (Str ''10.006'')]
       = Inr [row 7 ''5'' ''A'' running (Some 31) (Str ''30.02'')]"
    by (simp add: eval_aggregate parse_10_004 parse_10_006 parse_20_01 add_10_004_twice
        add_20_01_10_006 fixed_20_008 fixed_30_016 del: js_add.simps)
  have c: "aggregate [row 7 ''5'' ''A'' running (Some 31) (Str ''10.006''),
                row 7 ''5'' ''A'' running (Some 31) (Str ''10.004''),
                row 7 ''5'' ''A'' running (Some 31) (Str ''10.004'')]
       = Inr [row 7 ''5'' ''A'' running (Some 31) (Str ''30.01'')]"
    by (simp add: eval_aggregate parse_10_004 parse_10_006 parse_20_01 add_10_006_10_004
        add_20_01_10_004 fixed_20_010 fixed_30_014 del: js_add.simps)
  from a b c show ?thesis by blast
qed

text \<open>
  C9 (amended). For every row list whose amounts are doubles nearest to a whole number of
  hundredths, with the absolute amounts summing to at most 2^43, and every permutation of
  it, the amount read from the aggregate of each table identifier is the same. For every
  row list, the display number, block and capacity of an aggregate are those of the first
  row with that identifier, and its status is that row's unless it is running.
\<close>

theorem C9_total_order_independent_for_two_decimals:
  "(mset rows' = mset rows \<and> (\<forall>r\<in>set rows. twoDecimal (amountOf r))
      \<and> (\<Sum>r\<leftarrow>rows. \<bar>centsOf (amountOf r)\<bar>) \<le> 100 * 2 ^ 43 \<longrightarrow>
      map_option amountOf (aggregateOf rows' tid) = map_option amountOf (aggregateOf rows tid))
   \<and> (aggregateOf rows tid = Some a \<longrightarrow>
        (\<exists>first rest. filter (\<lambda>r. table_id r = tid) rows = first # rest
           \<and> table_number a = table_number first \<and> table_block a = table_block first
           \<and> seating_capacity a = seating_capacity first
           \<and> (status a = status first \<or> status a = running)))"
  using aggregateOf_amount_perm[of rows' rows tid] aggregateOf_first_row[of rows tid a]
  by blast

text \<open>C9 (amended) at the two rows 250.00 and 180.50 of table 7, in both orders.\<close>

theorem C9_total_order_independent_witness:
  "mset [row 7 ''9'' ''B'' running (Some 31) (Str ''180.50''), row 7 ''5'' ''A'' empty None (Str ''250.00'')]
     = mset [row 7 ''5'' ''A'' empty None (Str ''250.00''), row 7 ''9'' ''B'' running (Some 31) (Str ''180.50'')]
   \<and> twoDecimal (amountOf (row 7 ''5'' ''A'' empty None (Str ''250.00'')))
   \<and> twoDecimal (amountOf (row 7 ''9'' ''B'' running (Some 31) (Str ''180.50'')))
   \<and> map (\<lambda>r. \<bar>centsOf (amountOf r)\<bar>)
        [row 7 ''5'' ''A'' empty None (Str ''250.00''),
         row 7 ''9'' ''B'' running (Some 31) (Str ''180.50'')] = [25000, 18050]
   \<and> (25000 + 18050 :: int) \<le> 100 * 2 ^ 43
   \<and> aggregateOf [row 7 ''5'' ''A'' empty None (Str ''250.00''),
                  row 7 ''9'' ''B'' running (Some 31) (Str ''180.50'')] 7
       = Some (row 7 ''5'' ''A'' running (Some 31) (Str ''430.50''))
   \<and> map_option amountOf
        (aggregateOf [row 7 ''9'' ''B'' running (Some 31) (Str ''180.50''),
                      row 7 ''5'' ''A'' empty None (Str ''250.00'')] 7)
       = Some (Fin (861 / 2))
   \<and> map_option table_number
        (aggregateOf [row 7 ''9'' ''B'' running (Some 31) (Str ''180.50''),
                      row 7 ''5'' ''A'' empty None (Str ''250.00'')] 7)
       = Some ''9''"
proof -
  let ?a = "row 7 ''5'' ''A'' empty None (Str ''250.00'')"
  let ?b = "row 7 ''9'' ''B'' running (Some 31) (Str ''180.50'')"
  have p: "mset [?b, ?a] = mset [?a, ?b]" by simp
  have aa: "amountOf ?a = Fin 250" by (simp add: amountOf_def row_def parse_250)
  have ab: "amountOf ?b = Fin (361 / 2)" by (simp add: amountOf_def row_def parse_180_50)
  have ca: "centsOf (Fin 250) = 25000" by (simp add: centsOf_def floor_divide_numeral_rat)
  have cb: "centsOf (Fin (361 / 2)) = 18050" by (simp add: centsOf_def floor_divide_numeral_rat)
  have ha: "twoDecimal (amountOf ?a)" unfolding aa twoDecimal_def ca by (simp add: eval_double)
  have hb: "twoDecimal (amountOf ?b)" unfolding ab twoDecimal_def cb by (simp add: eval_double)
  have cs: "map (\<lambda>r. \<bar>centsOf (amountOf r)\<bar>) [?a, ?b] = [25000, 18050]"
    by (simp add: aa ab ca cb)
  have le: "(25000 + 18050 :: int) \<le> 100 * 2 ^ 43" by simp
  have h: "\<forall>r\<in>set [?a, ?b]. twoDecimal (amountOf r)" using ha hb by simp
  have bd: "(\<Sum>r\<leftarrow>[?a, ?b]. \<bar>centsOf (amountOf r)\<bar>) \<le> 100 * 2 ^ 43" unfolding cs by simp
  have v: "aggregateOf [?a, ?b] 7 = Some (row 7 ''5'' ''A'' running (Some 31) (Str ''430.50''))"
    by (simp add: aggregateOf_def eval_aggregate parse_250 parse_180_50 add_250_180_50
        fixed_430_50 del: js_add.simps)
  have am: "amountOf (row 7 ''5'' ''A'' running (Some 31) (Str ''430.50'')) = Fin (861 / 2)"
    by (simp add: amountOf_def row_def parse_430_50)
  obtain x where x: "aggregateOf [?b, ?a] 7 = Some x"
    using aggregateOf_None_iff[of "[?b, ?a]" 7] by (auto simp: row_def)
  note th = C9_total_order_independent_for_two_decimals[of "[?b, ?a]" "[?a, ?b]" 7 x]
  from th p h bd have "map_option amountOf (aggregateOf [?b, ?a] 7)
      = map_option amountOf (aggregateOf [?a, ?b] 7)" by blast
  then have r1: "map_option amountOf (aggregateOf [?b, ?a] 7) = Some (Fin (861 / 2))"
    unfolding v using am by simp
  note th2 = C9_total_order_independent_for_two_decimals[of "[?b, ?a]" "[?b, ?a]" 7 x]
  from th2 x obtain first rest where "filter (\<lambda>r. table_id r = 7) [?b, ?a] = first # rest"
    "table_number x = table_number first" by blast
  then have "table_number x = ''9''" by (auto simp: row_def)
  with x have r2: "map_option table_number (aggregateOf [?b, ?a] 7) = Some ''9''" by simp
  from p ha hb cs le v r1 r2 show ?thesis by blast
qed

end
